theory Spec2Isabelle
  imports Complex_Main "HOL-Library.Log_Nat"
begin

section \<open>Numbers\<close>

text \<open>
  Every amount, quantity and delta of \<^verbatim>\<open>script.js\<close> is a JavaScript Number, a binary64
  double. A finite double is kept by its rational value; the two zeros are one value here
  (the script never divides, and \<^verbatim>\<open>toFixed\<close>, the template literals and \<^verbatim>\<open><=\<close> treat them
  alike). The result of \<^verbatim>\<open>+\<close> and \<^verbatim>\<open>*\<close> is the exact result rounded to the nearest double,
  ties to the even mantissa, as IEEE 754 has it: \<open>round64\<close>.
\<close>

datatype number = Finite rat | NaN | PosInfinity | NegInfinity

text \<open>For \<open>0 < x\<close>: the \<open>e\<close> with \<open>2^e \<le> x < 2^(e + 1)\<close>.\<close>

definition floor_log2 :: "rat \<Rightarrow> int" where
  "floor_log2 x =
     (let (p, q) = quotient_of x; k = bitlen p - bitlen q
      in if power_int 2 k \<le> x then k else k - 1)"

definition round_half_even :: "rat \<Rightarrow> int" where
  "round_half_even y =
     (let f = \<lfloor>y\<rfloor>; d = y - of_int f
      in if d < 1 / 2 then f
         else if 1 / 2 < d then f + 1
         else if even f then f else f + 1)"

text \<open>
  A double has a mantissa of 53 bits and an exponent of at least \<open>- 1022\<close>: \<open>u\<close> is the
  distance of neighbouring doubles around \<open>x\<close>, and a result of \<open>2^1024\<close> or more is an
  infinity.
\<close>

definition round64 :: "rat \<Rightarrow> number" where
  "round64 x =
     (if x = 0 then Finite 0
      else
        (let a = \<bar>x\<bar>;
             e = max (floor_log2 a) (- 1022);
             u = power_int 2 (e - 52);
             r = of_int (round_half_even (a / u)) * u
         in if 2 ^ 1024 \<le> r then (if 0 < x then PosInfinity else NegInfinity)
            else Finite (if 0 < x then r else - r)))"

fun js_add :: "number \<Rightarrow> number \<Rightarrow> number" where
  "js_add NaN _ = NaN"
| "js_add _ NaN = NaN"
| "js_add (Finite a) (Finite b) = round64 (a + b)"
| "js_add (Finite _) PosInfinity = PosInfinity"
| "js_add (Finite _) NegInfinity = NegInfinity"
| "js_add PosInfinity (Finite _) = PosInfinity"
| "js_add NegInfinity (Finite _) = NegInfinity"
| "js_add PosInfinity PosInfinity = PosInfinity"
| "js_add NegInfinity NegInfinity = NegInfinity"
| "js_add PosInfinity NegInfinity = NaN"
| "js_add NegInfinity PosInfinity = NaN"

definition inf_times :: "number \<Rightarrow> rat \<Rightarrow> number" where
  \<comment> \<open>an infinity times a finite factor: the sign of the factor decides, zero gives NaN\<close>
  "inf_times i b =
     (if b = 0 then NaN
      else if 0 < b then i
      else (if i = PosInfinity then NegInfinity else PosInfinity))"

fun js_mul :: "number \<Rightarrow> number \<Rightarrow> number" where
  "js_mul NaN _ = NaN"
| "js_mul _ NaN = NaN"
| "js_mul (Finite a) (Finite b) = round64 (a * b)"
| "js_mul (Finite a) PosInfinity = inf_times PosInfinity a"
| "js_mul (Finite a) NegInfinity = inf_times NegInfinity a"
| "js_mul PosInfinity (Finite b) = inf_times PosInfinity b"
| "js_mul NegInfinity (Finite b) = inf_times NegInfinity b"
| "js_mul PosInfinity PosInfinity = PosInfinity"
| "js_mul NegInfinity NegInfinity = PosInfinity"
| "js_mul PosInfinity NegInfinity = NegInfinity"
| "js_mul NegInfinity PosInfinity = NegInfinity"

text \<open>\<^verbatim>\<open>a <= b\<close>: false as soon as one side is NaN.\<close>

fun js_le :: "number \<Rightarrow> number \<Rightarrow> bool" where
  "js_le NaN _ = False"
| "js_le _ NaN = False"
| "js_le (Finite a) (Finite b) = (a \<le> b)"
| "js_le NegInfinity _ = True"
| "js_le _ PosInfinity = True"
| "js_le PosInfinity _ = False"
| "js_le _ NegInfinity = False"

fun js_neg :: "number \<Rightarrow> number" where
  "js_neg (Finite a) = Finite (- a)"
| "js_neg NaN = NaN"
| "js_neg PosInfinity = NegInfinity"
| "js_neg NegInfinity = PosInfinity"

text \<open>
  An integer as a Number. The arguments that the code can get are the integers that are
  doubles; the properties below hold for the other integers too.
\<close>

definition of_integer :: "int \<Rightarrow> number" where
  "of_integer z = Finite (of_int z)"

section \<open>Strings of digits\<close>

definition digit_char :: "nat \<Rightarrow> char" where
  "digit_char d = ''0123456789ABCDEF'' ! d"

fun digits :: "nat \<Rightarrow> string" where
  "digits n = (if n < 10 then [digit_char n] else digits (n div 10) @ [digit_char (n mod 10)])"

declare digits.simps [simp del]

text \<open>
  Number::toString of ECMA-262 for radix 10. For \<open>0 < x\<close> it takes integers \<open>n\<close>, \<open>k\<close>, \<open>s\<close>
  with \<open>10^(k - 1) \<le> s < 10^k\<close> such that \<open>s * 10^(n - k)\<close> is a decimal that rounds to the
  double \<open>x\<close>, with \<open>k\<close> as small as possible and, among those, \<open>s * 10^(n - k)\<close> as close to
  \<open>x\<close> as possible. \<open>decimal_exponent x\<close> is the \<open>n\<close> with \<open>10^(n - 1) \<le> x < 10^n\<close>; the
  \<open>n\<close> of the shortest decimal is this one or the next, and \<open>s\<close> is next to
  \<open>x / 10^(n - k)\<close>; 17 digits always suffice for a double.
\<close>

definition decimal_exponent :: "rat \<Rightarrow> int" where
  "decimal_exponent x =
     (if 1 \<le> x then int (length (digits (nat \<lfloor>x\<rfloor>)))
      else 1 - int (length (digits (nat (\<lceil>1 / x\<rceil> - 1)))))"

definition candidates :: "rat \<Rightarrow> nat \<Rightarrow> (int \<times> int) list" where
  "candidates x k =
     concat (map (\<lambda>n. map (\<lambda>s. (n, s))
                          (filter (\<lambda>s. 10 ^ (k - 1) \<le> s \<and> s < 10 ^ k
                                        \<and> round64 (of_int s * power_int 10 (n - int k)) = Finite x)
                             [\<lfloor>x / power_int 10 (n - int k)\<rfloor>,
                              \<lfloor>x / power_int 10 (n - int k)\<rfloor> + 1]))
                 [decimal_exponent x, decimal_exponent x + 1])"

definition closer :: "rat \<Rightarrow> nat \<Rightarrow> int \<times> int \<Rightarrow> int \<times> int \<Rightarrow> int \<times> int" where
  "closer x k c1 c2 =
     (let d1 = \<bar>of_int (snd c1) * power_int 10 (fst c1 - int k) - x\<bar>;
          d2 = \<bar>of_int (snd c2) * power_int 10 (fst c2 - int k) - x\<bar>
      in if d1 < d2 then c1 else if d2 < d1 then c2 else if even (snd c1) then c1 else c2)"

text \<open>
  The result is \<open>(k, n, s)\<close>. The first case is for a rational that is no double, which no
  decimal rounds to: its first 17 digits.
\<close>

definition shortest_digits :: "rat \<Rightarrow> nat \<times> int \<times> int" where
  "shortest_digits x =
     (case filter (\<lambda>k. candidates x k \<noteq> []) [1 ..< 18] of
        [] \<Rightarrow> (17, decimal_exponent x, \<lfloor>x / power_int 10 (decimal_exponent x - 17)\<rfloor>)
      | k # _ \<Rightarrow> (case candidates x k of c # cs \<Rightarrow> (k, foldl (closer x k) c cs)))"

definition positive_toString :: "rat \<Rightarrow> string" where
  "positive_toString x =
     (let (k, n, s) = shortest_digits x; ds = digits (nat s)
      in if int k \<le> n \<and> n \<le> 21 then ds @ replicate (nat (n - int k)) (CHR ''0'')
         else if 0 < n \<and> n \<le> 21 then take (nat n) ds @ ''.'' @ drop (nat n) ds
         else if - 6 < n \<and> n \<le> 0 then ''0.'' @ replicate (nat (- n)) (CHR ''0'') @ ds
         else
           (let ex = n - 1;
                exs = (if ex < 0 then ''-'' else ''+'') @ digits (nat \<bar>ex\<bar>)
            in if k = 1 then ds @ ''e'' @ exs
               else take 1 ds @ ''.'' @ drop 1 ds @ ''e'' @ exs))"

definition number_toString :: "number \<Rightarrow> string" where
  "number_toString v =
     (case v of
        NaN \<Rightarrow> ''NaN''
      | PosInfinity \<Rightarrow> ''Infinity''
      | NegInfinity \<Rightarrow> ''-Infinity''
      | Finite x \<Rightarrow>
          (if x = 0 then ''0''
           else if x < 0 then ''-'' @ positive_toString (- x)
           else positive_toString x))"

text \<open>
  \<^verbatim>\<open>Number.prototype.toFixed(f)\<close> for \<open>0 \<le> f \<le> 100\<close>, after ECMA-262: a non-finite
  Number gives its name; a minus sign is split off; a magnitude of at least \<open>10^21\<close>
  goes to Number::toString; otherwise the integer \<open>n\<close> nearest to \<open>x * 10^f\<close> (the
  larger one of two) is written in decimal, padded with zeros to \<open>f + 1\<close> digits, with
  a point before the last \<open>f\<close> digits.
\<close>

definition toFixed :: "nat \<Rightarrow> number \<Rightarrow> string" where
  "toFixed f v =
     (case v of
        NaN \<Rightarrow> ''NaN''
      | PosInfinity \<Rightarrow> ''Infinity''
      | NegInfinity \<Rightarrow> ''-Infinity''
      | Finite x0 \<Rightarrow>
          (let s = (if x0 < 0 then ''-'' else '''');
               x = (if x0 < 0 then - x0 else x0)
           in if 10 ^ 21 \<le> x then s @ number_toString (Finite x)
              else
                (let n = nat \<lfloor>x * 10 ^ f + 1 / 2\<rfloor>;
                     m = digits n;
                     m = (if f \<noteq> 0
                          then (let m = (if length m \<le> f
                                         then replicate (f + 1 - length m) (CHR ''0'') @ m
                                         else m);
                                    k = length m
                                in take (k - f) m @ ''.'' @ drop (k - f) m)
                          else m)
                 in s @ m)))"

text \<open>
  \<^verbatim>\<open>encodeURIComponent\<close> on the bytes of a string (strings are byte lists here, in
  UTF-8, and the function escapes the UTF-8 bytes of every character it does not keep).
\<close>

definition uriUnreserved :: "char \<Rightarrow> bool" where
  "uriUnreserved c \<longleftrightarrow>
     c \<in> set (''ABCDEFGHIJKLMNOPQRSTUVWXYZabcdefghijklmnopqrstuvwxyz0123456789-_.!~*()''
              @ [CHR 0x27])"

definition encodeURIComponent :: "string \<Rightarrow> string" where
  "encodeURIComponent str =
     concat (map (\<lambda>c. if uriUnreserved c then [c]
                       else [CHR ''%'', digit_char (of_char c div 16),
                             digit_char (of_char c mod 16)]) str)"

section \<open>Utility functions\<close>

text \<open>
  The literal before \<^verbatim>\<open>${amount.toFixed(0)}\<close>, byte for byte as the source file has
  it: the rupee sign U+20B9 after a trip through a one-byte encoding.
\<close>

definition currency_symbol :: string where
  "currency_symbol = [CHR 0xC3, CHR 0xA2, CHR 0xE2, CHR 0x80, CHR 0x9A, CHR 0xC2, CHR 0xB9]"

definition formatINR :: "number \<Rightarrow> string" where
  "formatINR amount = currency_symbol @ toFixed 0 amount"

section \<open>State\<close>

text \<open>
  The argument of \<^verbatim>\<open>addToCart\<close> and the record the cart keeps for it, which is
  \<^verbatim>\<open>{ ...item, quantity: 1 }\<close>: the item's fields and one more. The field \<^verbatim>\<open>id\<close> is
  \<open>item_id\<close> here.
\<close>

record item =
  item_id :: string
  name :: string
  price :: number

record line_item = item +
  quantity :: number

text \<open>
  A JavaScript \<^verbatim>\<open>Map\<close> keeps its keys in insertion order: an association list, where
  \<^verbatim>\<open>set\<close> on a new key appends, \<^verbatim>\<open>set\<close> on a key it holds replaces the value in
  place, and \<^verbatim>\<open>delete\<close> removes the key. The keys of a \<^verbatim>\<open>Map\<close> are distinct; the
  functions below keep them so (\<open>keys_distinct_run_ops\<close>), and the properties hold for any
  list.
\<close>

type_synonym ('k, 'v) jsmap = "('k \<times> 'v) list"

definition map_get :: "('k, 'v) jsmap \<Rightarrow> 'k \<Rightarrow> 'v option" where
  "map_get m k = map_of m k"

fun map_set :: "('k, 'v) jsmap \<Rightarrow> 'k \<Rightarrow> 'v \<Rightarrow> ('k, 'v) jsmap" where
  "map_set [] k v = [(k, v)]"
| "map_set ((k', v') # m) k v = (if k' = k then (k, v) # m else (k', v') # map_set m k v)"

definition map_delete :: "('k, 'v) jsmap \<Rightarrow> 'k \<Rightarrow> ('k, 'v) jsmap" where
  "map_delete m k = filter (\<lambda>(k', v). k' \<noteq> k) m"

definition map_clear :: "('k, 'v) jsmap \<Rightarrow> ('k, 'v) jsmap" where
  "map_clear m = []"

definition map_size :: "('k, 'v) jsmap \<Rightarrow> nat" where
  "map_size m = length m"

fun forEach :: "('v \<Rightarrow> 'a \<Rightarrow> 'a) \<Rightarrow> ('k, 'v) jsmap \<Rightarrow> 'a \<Rightarrow> 'a" where
  "forEach f [] a = a"
| "forEach f ((k, v) # m) a = forEach f m (f v a)"

text \<open>
  The page, as far as the script writes to it. A row of the cart is kept by the values
  that the template puts into its markup. \<^verbatim>\<open>hasQrCodeImage\<close> says whether the page has an
  element with id \<^verbatim>\<open>qrCodeImage\<close>; the elements that the script caches at load time are
  taken to exist.
\<close>

record env =
  hasQrCodeImage :: bool

record row =
  row_id :: string
  row_name :: string
  row_quantity :: string
  row_price :: string
  row_lineTotal :: string

record dom =
  cartItems :: "row list"
  cartEmptyDisplay :: string
  checkoutDisabled :: bool
  clearCartDisabled :: bool
  itemsTotalText :: string
  grandTotalText :: string
  qrCodeImageSrc :: string
  qrAmountText :: string

text \<open>
  The calls that the properties below count: every entry into \<^verbatim>\<open>updateQRCode\<close> with its
  amount, and every \<^verbatim>\<open>alert\<close> with its message, oldest first.
\<close>

datatype call = UpdateQRCode number | Alert string

record state =
  cart :: "(string, line_item) jsmap"
  page :: dom
  calls :: "call list"

record totals =
  itemsTotal :: number
  grandTotal :: number

section \<open>Cart logic\<close>

text \<open>
  \<^verbatim>\<open>existing.quantity += 1\<close> and \<^verbatim>\<open>item.quantity = newQty\<close> write to the object that
  the map holds under the key: the entry keeps its place and its other fields.
\<close>

definition set_quantity :: "(string, line_item) jsmap \<Rightarrow> string \<Rightarrow> number \<Rightarrow> (string, line_item) jsmap" where
  "set_quantity m k q = map (\<lambda>(k', v). if k' = k then (k', v\<lparr>quantity := q\<rparr>) else (k', v)) m"

definition calculateTotals :: "state \<Rightarrow> totals \<times> state" where
  "calculateTotals s =
     (let itemsTotal = forEach (\<lambda>item t. js_add t (js_mul (price item) (quantity item)))
                               (cart s) (Finite 0);
          grandTotal = itemsTotal
      in (\<lparr>itemsTotal = itemsTotal, grandTotal = grandTotal\<rparr>, s))"

definition upiUrl :: "number \<Rightarrow> string" where
  "upiUrl amount =
     ''upi://pay?pa=harishkannan1813-1@okicici&pn=South%20Spice%20Restaurant&am=''
     @ toFixed 2 amount @ ''&cu=INR&tn=Restaurant%20Bill''"

definition updateQRCode :: "env \<Rightarrow> number \<Rightarrow> state \<Rightarrow> state" where
  "updateQRCode e amount s0 =
     (let s = s0\<lparr>calls := calls s0 @ [UpdateQRCode amount]\<rparr>
      in if \<not> hasQrCodeImage e then s
         else s\<lparr>page := (page s)
                \<lparr>qrCodeImageSrc :=
                   ''https://api.qrserver.com/v1/create-qr-code/?size=200x200&data=''
                   @ encodeURIComponent (upiUrl amount),
                 qrAmountText := ''Total Amount: '' @ formatINR amount\<rparr>\<rparr>)"

definition render_row :: "line_item \<Rightarrow> row" where
  "render_row item =
     (let lineTotal = js_mul (price item) (quantity item)
      in \<lparr>row_id = item_id item,
          row_name = name item,
          row_quantity = number_toString (quantity item),
          row_price = formatINR (price item),
          row_lineTotal = formatINR lineTotal\<rparr>)"

definition renderCart :: "env \<Rightarrow> state \<Rightarrow> state" where
  "renderCart e s0 =
     (let s = s0\<lparr>page := (page s0)\<lparr>cartItems := []\<rparr>\<rparr>;
          s = (if map_size (cart s) = 0
               then s\<lparr>page := (page s)\<lparr>cartEmptyDisplay := ''block'',
                                        checkoutDisabled := True,
                                        clearCartDisabled := True\<rparr>\<rparr>
               else s\<lparr>page := forEach (\<lambda>item d. d\<lparr>cartItems := cartItems d @ [render_row item]\<rparr>)
                                  (cart s)
                                  ((page s)\<lparr>cartEmptyDisplay := ''none'',
                                            checkoutDisabled := False,
                                            clearCartDisabled := False\<rparr>)\<rparr>);
          (t, s) = calculateTotals s;
          s = s\<lparr>page := (page s)\<lparr>itemsTotalText := formatINR (itemsTotal t),
                                   grandTotalText := formatINR (grandTotal t)\<rparr>\<rparr>
      in updateQRCode e (grandTotal t) s)"

definition addToCart :: "env \<Rightarrow> item \<Rightarrow> state \<Rightarrow> state" where
  "addToCart e item s =
     renderCart e
       (case map_get (cart s) (item_id item) of
          Some existing \<Rightarrow>
            s\<lparr>cart := set_quantity (cart s) (item_id item)
                         (js_add (quantity existing) (Finite 1))\<rparr>
        | None \<Rightarrow>
            s\<lparr>cart := map_set (cart s) (item_id item)
                         (item.extend item \<lparr>quantity = Finite 1\<rparr>)\<rparr>)"

definition updateQuantity :: "env \<Rightarrow> string \<Rightarrow> number \<Rightarrow> state \<Rightarrow> state" where
  "updateQuantity e k delta s =
     (case map_get (cart s) k of
        None \<Rightarrow> s
      | Some item \<Rightarrow>
          (let newQty = js_add (quantity item) delta
           in renderCart e
                (if js_le newQty (Finite 0)
                 then s\<lparr>cart := map_delete (cart s) k\<rparr>
                 else s\<lparr>cart := set_quantity (cart s) k newQty\<rparr>)))"

definition removeFromCart :: "env \<Rightarrow> string \<Rightarrow> state \<Rightarrow> state" where
  "removeFromCart e k s = renderCart e (s\<lparr>cart := map_delete (cart s) k\<rparr>)"

definition clearCart :: "env \<Rightarrow> state \<Rightarrow> state" where
  "clearCart e s = renderCart e (s\<lparr>cart := map_clear (cart s)\<rparr>)"

section \<open>Event listeners\<close>

definition clearCartBtn_click :: "env \<Rightarrow> state \<Rightarrow> state" where
  "clearCartBtn_click e s = (if map_size (cart s) = 0 then s else clearCart e s)"

definition join_lines :: "string list \<Rightarrow> string" where
  \<comment> \<open>\<^verbatim>\<open>lines.join("\n")\<close>\<close>
  "join_lines ls = (case ls of [] \<Rightarrow> [] | l # ls' \<Rightarrow> l @ concat (map (\<lambda>x. CHR 0x0A # x) ls'))"

definition order_message :: "state \<Rightarrow> totals \<Rightarrow> string" where
  "order_message s t =
     (let itemLines =
            forEach (\<lambda>item ls. ls @ [name item @ '' x '' @ number_toString (quantity item)
                                       @ '' = ''
                                       @ formatINR (js_mul (price item) (quantity item))])
                    (cart s) []
      in join_lines
           ([''Thank you for your order at South Spice! ''
               @ [CHR 0xC3, CHR 0xB0, CHR 0xC5, CHR 0xB8, CHR 0xC2, CHR 0xA5, CHR 0xCB, CHR 0x9C],
             [],
             ''Order Summary:'']
            @ itemLines
            @ [[],
               ''Items Total: '' @ formatINR (itemsTotal t),
               ''Grand Total: '' @ formatINR (grandTotal t),
               [],
               ''Your order has been received. Please proceed to the counter for payment.'']))"

definition checkoutBtn_click :: "env \<Rightarrow> state \<Rightarrow> state" where
  "checkoutBtn_click e s0 =
     (if map_size (cart s0) = 0 then s0
      else (let (t, s) = calculateTotals s0;
                message = order_message s t;
                s = s\<lparr>calls := calls s @ [Alert message]\<rparr>
            in clearCart e s))"

section \<open>Init\<close>

text \<open>
  The listener of \<^verbatim>\<open>DOMContentLoaded\<close>. The four \<^verbatim>\<open>setup\<close> functions register
  listeners (and write the year), which changes nothing of the state kept here; the cart
  is the empty \<^verbatim>\<open>new Map()\<close> then.
\<close>

definition domContentLoaded :: "env \<Rightarrow> state \<Rightarrow> state" where
  "domContentLoaded e s = updateQRCode e (Finite 0) (renderCart e s)"

definition initial_state :: "dom \<Rightarrow> state" where
  "initial_state d = \<lparr>cart = [], page = d, calls = []\<rparr>"

text \<open>
  The four operations on the store, and a run of them. The delta of the contract is a
  signed integer.
\<close>

datatype store_op = Add item | AdjustQuantity string int | Remove string | Clear

fun apply_op :: "env \<Rightarrow> store_op \<Rightarrow> state \<Rightarrow> state" where
  "apply_op e (Add item) s = addToCart e item s"
| "apply_op e (AdjustQuantity k delta) s = updateQuantity e k (of_integer delta) s"
| "apply_op e (Remove k) s = removeFromCart e k s"
| "apply_op e Clear s = clearCart e s"

fun run_ops :: "env \<Rightarrow> store_op list \<Rightarrow> state \<Rightarrow> state" where
  "run_ops e [] s = s"
| "run_ops e (x # xs) s = run_ops e xs (apply_op e x s)"

section \<open>Notions of the properties\<close>

text \<open>The number that a string of decimal digits denotes.\<close>

definition decimal_value :: "string \<Rightarrow> nat" where
  "decimal_value str = foldl (\<lambda>a c. 10 * a + (of_char c - 48)) 0 str"

text \<open>
  The invariant of the store: every quantity is a whole number of at least 1, or positive
  infinity, which sums beyond the largest double reach.
\<close>

definition whole_positive :: "number \<Rightarrow> bool" where
  "whole_positive q = (case q of
       Finite x \<Rightarrow> 1 \<le> x \<and> of_int \<lfloor>x\<rfloor> = x
     | PosInfinity \<Rightarrow> True
     | _ \<Rightarrow> False)"

definition quantities_positive :: "(string, line_item) jsmap \<Rightarrow> bool" where
  "quantities_positive m = list_all (\<lambda>(k, item). whole_positive (quantity item)) m"

text \<open>The left-to-right sum of a list of Numbers, each partial sum rounded.\<close>

definition js_sum :: "number list \<Rightarrow> number" where
  "js_sum xs = foldl js_add (Finite 0) xs"

section \<open>Sample data\<close>

text \<open>
  A page with every text blank, the menu items of the scenarios, and the doubles that the
  decimals 0.1, 0.2 and 0.7 denote.
\<close>

definition sample_env :: env where
  "sample_env = \<lparr>hasQrCodeImage = True\<rparr>"

definition blank_page :: dom where
  "blank_page = \<lparr>cartItems = [], cartEmptyDisplay = [], checkoutDisabled = False,
                  clearCartDisabled = False, itemsTotalText = [], grandTotalText = [],
                  qrCodeImageSrc = [], qrAmountText = []\<rparr>"

definition dosa :: item where
  "dosa = \<lparr>item_id = ''A'', name = ''Dosa'', price = Finite 80\<rparr>"

definition vada :: item where
  "vada = \<lparr>item_id = ''B'', name = ''Vada'', price = Finite 120\<rparr>"

definition dosa_repriced :: item where
  "dosa_repriced = \<lparr>item_id = ''A'', name = ''Masala Dosa'', price = Finite 95\<rparr>"

definition double_0_1 :: rat where
  "double_0_1 = 3602879701896397 / 2 ^ 55"

definition double_0_2 :: rat where
  "double_0_2 = 3602879701896397 / 2 ^ 54"

definition double_0_7 :: rat where
  "double_0_7 = 3152519739159347 / 2 ^ 52"

section \<open>Rounding to a double\<close>

lemma floor_log2_lower:
  assumes "0 < x"
  shows "power_int 2 (floor_log2 x) \<le> x"
proof -
  obtain p q where pq: "quotient_of x = (p, q)"
    by (cases "quotient_of x")
  then have q: "0 < q" and x: "x = of_int p / of_int q"
    by (simp_all add: quotient_of_denom_pos quotient_of_div)
  with assms have p: "0 < p"
    by (simp add: zero_less_divide_iff)
  let ?k = "bitlen p - bitlen q"
  show ?thesis
  proof (cases "power_int 2 ?k \<le> x")
    case True
    then show ?thesis
      by (simp add: floor_log2_def pq)
  next
    case False
    have bp: "1 \<le> bitlen p" and bq: "1 \<le> bitlen q"
      using p q bitlen_eq_zero_iff [of p] bitlen_eq_zero_iff [of q] bitlen_nonneg [of p]
        bitlen_nonneg [of q]
      by linarith+
    have lo: "(2::int) ^ nat (bitlen p - 1) \<le> p" and hi: "q < (2::int) ^ nat (bitlen q)"
      using bitlen_bounds [OF p] bitlen_bounds [OF q] by simp_all
    have "power_int (2::rat) (?k - 1) = power_int 2 (bitlen p - 1) / power_int 2 (bitlen q)"
      using power_int_diff [of "2::rat" "bitlen p - 1" "bitlen q"]
      by (simp add: algebra_simps)
    also have "\<dots> = of_int (2 ^ nat (bitlen p - 1)) / of_int (2 ^ nat (bitlen q))"
      using bp bq by (simp add: power_int_def)
    also have "\<dots> \<le> of_int p / of_int q"
    proof (rule frac_le)
      show "(0::rat) \<le> of_int p"
        using p by simp
      show "(of_int (2 ^ nat (bitlen p - 1)) :: rat) \<le> of_int p"
        using lo by (simp only: of_int_le_iff)
      show "(0::rat) < of_int q"
        using q by simp
      show "(of_int q :: rat) \<le> of_int (2 ^ nat (bitlen q))"
        using hi by (simp only: of_int_le_iff less_imp_le)
    qed
    finally have "power_int 2 (?k - 1) \<le> x"
      by (simp add: x)
    with False show ?thesis
      by (simp add: floor_log2_def pq)
  qed
qed

lemma round_half_even_of_int: "round_half_even (of_int j) = j"
  by (simp add: round_half_even_def)

lemma round_half_even_ge_floor: "\<lfloor>y\<rfloor> \<le> round_half_even y"
  by (simp add: round_half_even_def Let_def)

lemma round64_nonpos:
  assumes "x \<le> 0"
  shows "js_le (round64 x) (Finite 0)"
proof (cases "x = 0")
  case True
  then show ?thesis
    by (simp add: round64_def)
next
  case False
  with assms have neg: "x < 0"
    by simp
  let ?u = "power_int (2::rat) (max (floor_log2 \<bar>x\<bar>) (- 1022) - 52)"
  have "0 \<le> \<bar>x\<bar> / ?u"
    by simp
  then have "0 \<le> \<lfloor>\<bar>x\<bar> / ?u\<rfloor>"
    by simp
  then have "0 \<le> round_half_even (\<bar>x\<bar> / ?u)"
    using round_half_even_ge_floor [of "\<bar>x\<bar> / ?u"] by linarith
  then have "0 \<le> of_int (round_half_even (\<bar>x\<bar> / ?u)) * ?u"
    by simp
  with neg show ?thesis
    by (simp add: round64_def Let_def)
qed

lemma round64_unfold:
  assumes "x \<noteq> 0"
    and "of_int (round_half_even (\<bar>x\<bar> / power_int 2 (max (floor_log2 \<bar>x\<bar>) (- 1022) - 52)))
           * power_int 2 (max (floor_log2 \<bar>x\<bar>) (- 1022) - 52) = r"
  shows "round64 x = (if 2 ^ 1024 \<le> r then (if 0 < x then PosInfinity else NegInfinity)
                      else Finite (if 0 < x then r else - r))"
  unfolding round64_def Let_def assms(2) using assms(1) by (simp only: if_False)

text \<open>The rounding of an integer, by the exponent that \<open>round64\<close> takes.\<close>

lemma round64_of_int_small_exponent:
  assumes "z \<noteq> 0" and "max (floor_log2 \<bar>of_int z\<bar>) (- 1022) \<le> 52"
    and "\<bar>z\<bar> < 2 ^ 1024"
  shows "round64 (of_int z) = Finite (of_int z)"
proof -
  let ?e = "max (floor_log2 \<bar>of_int z :: rat\<bar>) (- 1022)"
  let ?u = "power_int (2::rat) (?e - 52)"
  have u: "?u = 1 / 2 ^ nat (52 - ?e)"
    using assms(2) power_int_minus [of "2::rat" "52 - ?e"]
    by (simp add: power_int_def field_simps)
  have "\<bar>of_int z :: rat\<bar> / ?u = of_int (\<bar>z\<bar> * 2 ^ nat (52 - ?e))"
    by (simp add: u)
  then have m: "round_half_even (\<bar>of_int z :: rat\<bar> / ?u) = \<bar>z\<bar> * 2 ^ nat (52 - ?e)"
    by (simp only: round_half_even_of_int)
  have r: "of_int (round_half_even (\<bar>of_int z :: rat\<bar> / ?u)) * ?u = \<bar>of_int z\<bar>"
    by (simp only: m) (simp add: u)
  have "\<not> (2::rat) ^ 1024 \<le> \<bar>of_int z\<bar>"
  proof -
    have "(of_int \<bar>z\<bar> :: rat) < of_int (2 ^ 1024)"
      using assms(3) by (simp only: of_int_less_iff)
    then show ?thesis
      by simp
  qed
  moreover have "(of_int z :: rat) \<noteq> 0"
    using assms(1) by simp
  from round64_unfold [OF this r]
  have "round64 (of_int z)
      = (if 2 ^ 1024 \<le> \<bar>of_int z :: rat\<bar> then (if (0::rat) < of_int z then PosInfinity else NegInfinity)
         else Finite (if (0::rat) < of_int z then \<bar>of_int z\<bar> else - \<bar>of_int z\<bar>))" .
  ultimately show ?thesis
    by (simp add: abs_if)
qed

lemma round64_of_int_exact:
  assumes "\<bar>z\<bar> \<le> 2 ^ 53"
  shows "round64 (of_int z) = Finite (of_int z)"
proof (cases "z = 0")
  case True
  then show ?thesis
    by (simp add: round64_def)
next
  case False
  let ?a = "\<bar>of_int z :: rat\<bar>"
  let ?e = "max (floor_log2 ?a) (- 1022)"
  have big: "\<bar>z\<bar> < 2 ^ 1024"
    using assms by (rule le_less_trans) simp
  show ?thesis
  proof (cases "?e \<le> 52")
    case True
    show ?thesis
      by (rule round64_of_int_small_exponent [OF False True big])
  next
    case large: False
    then have e: "?e = floor_log2 ?a"
      by simp
    have pos: "0 < ?a"
      using False by simp
    have a53: "?a \<le> 2 ^ 53"
    proof -
      have "(of_int \<bar>z\<bar> :: rat) \<le> of_int (2 ^ 53)"
        using assms by (simp only: of_int_le_iff)
      then show ?thesis
        by simp
    qed
    have "power_int (2::rat) ?e \<le> power_int 2 53"
      using floor_log2_lower [OF pos] a53 e by simp
    then have "?e \<le> 53"
      by (rule power_int_le_imp_le_exp [rotated]) simp_all
    with large have e53: "?e = 53"
      by simp
    then have "(2::rat) ^ 53 \<le> ?a"
      using floor_log2_lower [OF pos] e by simp
    with a53 have a: "?a = 2 ^ 53"
      by simp
    have "round_half_even (?a / power_int 2 (?e - 52)) = 2 ^ 52"
    proof -
      have "?a / power_int 2 (?e - 52) = of_int (2 ^ 52)"
        unfolding e53 by (simp add: a)
      then show ?thesis
        by (simp only: round_half_even_of_int)
    qed
    then have r: "of_int (round_half_even (?a / power_int 2 (?e - 52))) * power_int 2 (?e - 52) = ?a"
      unfolding e53 by (simp add: a)
    have small: "\<not> (2::rat) ^ 1024 \<le> ?a"
      by (simp add: a)
    have "(of_int z :: rat) \<noteq> 0"
      using False by simp
    from round64_unfold [OF this r]
    have "round64 (of_int z)
        = (if 2 ^ 1024 \<le> ?a then (if (0::rat) < of_int z then PosInfinity else NegInfinity)
           else Finite (if (0::rat) < of_int z then ?a else - ?a))" .
    with small show ?thesis
      by (simp add: abs_if)
  qed
qed

lemma round64_of_int_positive:
  assumes "1 \<le> z"
  shows "whole_positive (round64 (of_int z))"
proof -
  let ?a = "\<bar>of_int z :: rat\<bar>"
  let ?e = "max (floor_log2 ?a) (- 1022)"
  let ?u = "power_int (2::rat) (?e - 52)"
  let ?m = "round_half_even (?a / ?u)"
  have pos: "0 < ?a" and x: "(0::rat) < of_int z" and nz: "(of_int z :: rat) \<noteq> 0"
    using assms by simp_all
  show ?thesis
  proof (cases "?e \<le> 52")
    case True
    have r: "of_int ?m * ?u = ?a"
    proof -
      have u: "?u = 1 / 2 ^ nat (52 - ?e)"
        using True power_int_minus [of "2::rat" "52 - ?e"]
        by (simp add: power_int_def field_simps)
      have "?a / ?u = of_int (\<bar>z\<bar> * 2 ^ nat (52 - ?e))"
        by (simp add: u)
      then have "?m = \<bar>z\<bar> * 2 ^ nat (52 - ?e)"
        by (simp only: round_half_even_of_int)
      then show ?thesis
        by (simp only:) (simp add: u)
    qed
    have "round64 (of_int z) = (if 2 ^ 1024 \<le> ?a then PosInfinity else Finite (of_int z))"
      using x nz r assms by (simp add: round64_def Let_def)
    with assms show ?thesis
      by (simp add: whole_positive_def)
  next
    case False
    then have e: "?e = floor_log2 ?a" and e52: "52 < ?e"
      by simp_all
    have u: "?u = of_int (2 ^ nat (?e - 52))"
      using e52 by (simp add: power_int_def)
    have "power_int (2::rat) 52 * ?u = power_int 2 ?e"
      using power_int_add [of "2::rat" 52 "?e - 52"] by simp
    also have "\<dots> \<le> ?a"
      using floor_log2_lower [OF pos] e by simp
    finally have "power_int (2::rat) 52 * ?u \<le> ?a" .
    moreover have upos: "0 < ?u"
      by simp
    ultimately have "power_int (2::rat) 52 \<le> ?a / ?u"
      by (simp only: pos_le_divide_eq)
    moreover have "(1::rat) \<le> power_int 2 52"
      by simp
    ultimately have "(1::rat) \<le> ?a / ?u"
      by (rule order_trans [rotated])
    then have "1 \<le> \<lfloor>?a / ?u\<rfloor>"
      by (simp add: le_floor_iff)
    then have m: "1 \<le> ?m"
      using round_half_even_ge_floor [of "?a / ?u"] by linarith
    have r: "of_int ?m * ?u = of_int (?m * 2 ^ nat (?e - 52))"
      by (simp add: u)
    have ge: "1 \<le> ?m * 2 ^ nat (?e - 52)"
    proof -
      have "1 * 1 \<le> ?m * 2 ^ nat (?e - 52)"
        using m by (intro mult_mono) simp_all
      then show ?thesis
        by simp
    qed
    have "round64 (of_int z)
        = (if 2 ^ 1024 \<le> of_int ?m * ?u then PosInfinity else Finite (of_int ?m * ?u))"
      using x nz by (simp add: round64_def Let_def)
    also have "whole_positive \<dots>"
      unfolding r using ge by (simp add: whole_positive_def del: of_int_mult of_int_power)
    finally show ?thesis .
  qed
qed

lemma floor_log2_upper:
  assumes "0 < x"
  shows "x < power_int 2 (floor_log2 x + 1)"
proof -
  obtain p q where pq: "quotient_of x = (p, q)"
    by (cases "quotient_of x")
  then have q: "0 < q" and x: "x = of_int p / of_int q"
    by (simp_all add: quotient_of_denom_pos quotient_of_div)
  with assms have p: "0 < p"
    by (simp add: zero_less_divide_iff)
  let ?k = "bitlen p - bitlen q"
  show ?thesis
  proof (cases "power_int 2 ?k \<le> x")
    case False
    then show ?thesis
      by (simp add: floor_log2_def pq)
  next
    case True
    have bp: "1 \<le> bitlen p" and bq: "1 \<le> bitlen q"
      using p q bitlen_eq_zero_iff [of p] bitlen_eq_zero_iff [of q] bitlen_nonneg [of p]
        bitlen_nonneg [of q]
      by linarith+
    have hi: "p < (2::int) ^ nat (bitlen p)" and lo: "(2::int) ^ nat (bitlen q - 1) \<le> q"
      using bitlen_bounds [OF p] bitlen_bounds [OF q] by simp_all
    have "of_int p / of_int q < (of_int (2 ^ nat (bitlen p)) :: rat) / of_int (2 ^ nat (bitlen q - 1))"
    proof (rule frac_less)
      show "(0::rat) \<le> of_int p"
        using p by simp
      show "(of_int p :: rat) < of_int (2 ^ nat (bitlen p))"
        using hi by (simp only: of_int_less_iff)
      show "(0::rat) < of_int (2 ^ nat (bitlen q - 1))"
        by simp
      show "(of_int (2 ^ nat (bitlen q - 1)) :: rat) \<le> of_int q"
        using lo by (simp only: of_int_le_iff)
    qed
    also have "\<dots> = power_int 2 (bitlen p) / power_int 2 (bitlen q - 1)"
      using bp bq by (simp add: power_int_def)
    also have "\<dots> = power_int (2::rat) (?k + 1)"
      using power_int_diff [of "2::rat" "bitlen p" "bitlen q - 1"]
      by (simp add: algebra_simps)
    finally have "x < power_int 2 (?k + 1)"
      by (simp add: x)
    with True show ?thesis
      by (simp add: floor_log2_def pq)
  qed
qed

lemma power_int_2_less_imp:
  assumes "power_int (2::rat) a < power_int 2 b"
  shows "a < b"
proof (rule ccontr)
  assume "\<not> a < b"
  then have "power_int (2::rat) b \<le> power_int 2 a"
    by (intro power_int_increasing) simp_all
  with assms show False
    by simp
qed

lemma floor_log2_unique:
  assumes "power_int 2 e \<le> x" and "x < power_int 2 (e + 1)"
  shows "floor_log2 x = e"
proof -
  have pos: "0 < x"
    using assms(1) by (rule less_le_trans [rotated]) simp
  have "power_int (2::rat) e < power_int 2 (floor_log2 x + 1)"
    using assms(1) floor_log2_upper [OF pos] by (rule le_less_trans)
  then have "e < floor_log2 x + 1"
    by (rule power_int_2_less_imp)
  moreover have "power_int (2::rat) (floor_log2 x) < power_int 2 (e + 1)"
    using floor_log2_lower [OF pos] assms(2) by (rule le_less_trans)
  then have "floor_log2 x < e + 1"
    by (rule power_int_2_less_imp)
  ultimately show ?thesis
    by simp
qed

lemma round64_value:
  assumes "power_int 2 e \<le> \<bar>x\<bar>" and "\<bar>x\<bar> < power_int 2 (e + 1)" and "- 1022 \<le> e"
    and "of_int (round_half_even (\<bar>x\<bar> / power_int 2 (e - 52))) * power_int 2 (e - 52) = r"
  shows "round64 x = (if 2 ^ 1024 \<le> r then (if 0 < x then PosInfinity else NegInfinity)
                      else Finite (if 0 < x then r else - r))"
proof -
  have e: "max (floor_log2 \<bar>x\<bar>) (- 1022) = e"
    using floor_log2_unique [OF assms(1, 2)] assms(3) by simp
  have "0 < \<bar>x\<bar>"
    using assms(1) by (rule less_le_trans [rotated]) simp
  then have "x \<noteq> 0"
    by simp
  then show ?thesis
    by (rule round64_unfold) (simp only: e assms(4))
qed

lemma floor_numeral_divide: "\<lfloor>(numeral a :: rat) / numeral b\<rfloor> = numeral a div numeral b"
  using floor_divide_of_int_eq [of "numeral a" "numeral b", where ?'a = rat] by simp

text \<open>Three roundings at work: a tie at \<open>2^53 + 1\<close>, 0.1 + 0.2, and 0.7 * 5.\<close>

lemma round64_tie_above_2_53: "round64 9007199254740993 = Finite 9007199254740992"
  by (subst round64_value [where e = 53 and r = 9007199254740992])
     (simp_all add: round_half_even_def Let_def floor_numeral_divide)

lemma sum_0_1_0_2: "js_add (Finite double_0_1) (Finite double_0_2) = Finite (1351079888211149 / 2 ^ 52)"
  unfolding js_add.simps double_0_1_def double_0_2_def
  by (subst round64_value [where e = "- 2" and r = "1351079888211149 / 2 ^ 52"])
     (simp_all add: round_half_even_def Let_def floor_numeral_divide)

lemma product_0_7_5: "js_mul (Finite double_0_7) (Finite 5) = Finite (7 / 2)"
  unfolding js_mul.simps double_0_7_def
  by (subst round64_value [where e = 1 and r = "7 / 2"])
     (simp_all add: round_half_even_def Let_def floor_numeral_divide)

section \<open>Whole numbers as Numbers\<close>

lemma js_add_integers:
  "\<bar>a + b\<bar> \<le> 2 ^ 53 \<Longrightarrow> js_add (of_integer a) (of_integer b) = of_integer (a + b)"
  using round64_of_int_exact [of "a + b"] by (simp add: of_integer_def)

lemma js_mul_integers:
  "\<bar>a * b\<bar> \<le> 2 ^ 53 \<Longrightarrow> js_mul (of_integer a) (of_integer b) = of_integer (a * b)"
  using round64_of_int_exact [of "a * b"] by (simp add: of_integer_def)

lemma js_add_integers_nonpos:
  "a + b \<le> 0 \<Longrightarrow> js_le (js_add (of_integer a) (of_integer b)) (Finite 0)"
  using round64_nonpos [of "of_int (a + b)"] by (simp add: of_integer_def)

lemma js_add_integers_positive:
  "0 < a + b \<Longrightarrow> whole_positive (js_add (of_integer a) (of_integer b))"
  using round64_of_int_positive [of "a + b"] by (simp add: of_integer_def)

lemma whole_positive_cases:
  assumes "whole_positive q"
  shows "q = PosInfinity \<or> (\<exists>n. 1 \<le> n \<and> q = of_integer n)"
proof (cases q)
  case (Finite x)
  with assms obtain n where x: "x = of_int n" and "1 \<le> x"
    by (auto simp: whole_positive_def)
  then have "1 \<le> n"
    by simp
  with x Finite show ?thesis
    by (auto simp: of_integer_def)
qed (use assms in \<open>simp_all add: whole_positive_def\<close>)

lemma whole_positive_ge_1: "whole_positive q \<Longrightarrow> js_le (Finite 1) q"
  by (cases q) (simp_all add: whole_positive_def)

lemma whole_positive_not_le_0: "whole_positive q \<Longrightarrow> \<not> js_le q (Finite 0)"
  by (cases q) (simp_all add: whole_positive_def)

lemma whole_positive_add_one:
  assumes "whole_positive q"
  shows "whole_positive (js_add q (Finite 1))"
proof -
  from whole_positive_cases [OF assms] show ?thesis
  proof
    assume "q = PosInfinity"
    then show ?thesis
      by (simp add: whole_positive_def)
  next
    assume "\<exists>n. 1 \<le> n \<and> q = of_integer n"
    then obtain n where n: "1 \<le> n" and q: "q = of_integer n"
      by blast
    have "whole_positive (js_add (of_integer n) (of_integer 1))"
      using n by (intro js_add_integers_positive) simp
    then show ?thesis
      by (simp add: q of_integer_def)
  qed
qed

lemma whole_positive_adjust:
  assumes "whole_positive q" and "\<not> js_le (js_add q (of_integer d)) (Finite 0)"
  shows "whole_positive (js_add q (of_integer d))"
proof -
  from whole_positive_cases [OF assms(1)] show ?thesis
  proof
    assume "q = PosInfinity"
    then show ?thesis
      by (simp add: whole_positive_def of_integer_def)
  next
    assume "\<exists>n. 1 \<le> n \<and> q = of_integer n"
    then obtain n where q: "q = of_integer n"
      by blast
    have "\<not> n + d \<le> 0"
    proof
      assume "n + d \<le> 0"
      then have "js_le (js_add (of_integer n) (of_integer d)) (Finite 0)"
        by (rule js_add_integers_nonpos)
      with assms(2) show False
        by (simp add: q)
    qed
    then have "0 < n + d"
      by simp
    then show ?thesis
      unfolding q by (rule js_add_integers_positive)
  qed
qed

section \<open>The store under each function\<close>

lemma cart_updateQRCode: "cart (updateQRCode e a s) = cart s"
  by (simp add: updateQRCode_def Let_def)

lemma calls_updateQRCode: "calls (updateQRCode e a s) = calls s @ [UpdateQRCode a]"
  by (simp add: updateQRCode_def Let_def)

lemma cart_renderCart: "cart (renderCart e s) = cart s"
  by (simp add: renderCart_def calculateTotals_def Let_def cart_updateQRCode)

lemma forEach_foldl: "forEach (\<lambda>v t. f t (g v)) m a = foldl f a (map (\<lambda>(k, v). g v) m)"
  by (induction m arbitrary: a) auto

lemma itemsTotal_sum:
  "itemsTotal (fst (calculateTotals s)) =
     js_sum (map (\<lambda>(k, item). js_mul (price item) (quantity item)) (cart s))"
  by (simp add: calculateTotals_def Let_def js_sum_def
        forEach_foldl [where f = js_add and g = "\<lambda>item. js_mul (price item) (quantity item)"])

lemma calls_renderCart:
  "calls (renderCart e s) = calls s @ [UpdateQRCode (grandTotal (fst (calculateTotals s)))]"
  by (simp add: renderCart_def calculateTotals_def Let_def calls_updateQRCode)

lemma map_get_map_set: "map_get (map_set m k v) k' = (if k' = k then Some v else map_get m k')"
  by (induction m) (auto simp: map_get_def)

lemma map_get_map_delete: "map_get (map_delete m k) k' = (if k' = k then None else map_get m k')"
  by (induction m) (auto simp: map_get_def map_delete_def)

lemma map_get_set_quantity:
  "map_get (set_quantity m k q) k' =
     (if k' = k then map_option (\<lambda>v. v\<lparr>quantity := q\<rparr>) (map_get m k) else map_get m k')"
  by (induction m) (auto simp: map_get_def set_quantity_def)

lemma cart_addToCart:
  "cart (addToCart e item s) =
     (case map_get (cart s) (item_id item) of
        Some existing \<Rightarrow>
          set_quantity (cart s) (item_id item) (js_add (quantity existing) (Finite 1))
      | None \<Rightarrow> map_set (cart s) (item_id item) (item.extend item \<lparr>quantity = Finite 1\<rparr>))"
  by (simp add: addToCart_def cart_renderCart split: option.splits)

lemma cart_updateQuantity:
  "cart (updateQuantity e k delta s) =
     (case map_get (cart s) k of
        None \<Rightarrow> cart s
      | Some item \<Rightarrow>
          if js_le (js_add (quantity item) delta) (Finite 0) then map_delete (cart s) k
          else set_quantity (cart s) k (js_add (quantity item) delta))"
  by (simp add: updateQuantity_def cart_renderCart Let_def split: option.splits)

lemma keys_map_set:
  "map fst (map_set m k v) = (if k \<in> set (map fst m) then map fst m else map fst m @ [k])"
  by (induction m) (auto simp: rev_image_eqI)

lemma keys_set_quantity: "map fst (set_quantity m k q) = map fst m"
  by (induction m) (auto simp: set_quantity_def)

lemma keys_map_delete: "map fst (map_delete m k) = filter (\<lambda>k'. k' \<noteq> k) (map fst m)"
  by (induction m) (auto simp: map_delete_def)

lemma map_get_None_keys: "map_get m k = None \<longleftrightarrow> k \<notin> set (map fst m)"
  by (simp add: map_get_def map_of_eq_None_iff)

lemma cart_removeFromCart: "cart (removeFromCart e k s) = map_delete (cart s) k"
  by (simp add: removeFromCart_def cart_renderCart)

lemma cart_clearCart: "cart (clearCart e s) = []"
  by (simp add: clearCart_def cart_renderCart map_clear_def)

lemma extend_fields:
  "item.extend item \<lparr>quantity = q\<rparr> =
     \<lparr>item_id = item_id item, name = name item, price = price item, quantity = q\<rparr>"
  by (cases item) (simp add: item.extend_def)

section \<open>Adding\<close>

lemma cart_add_run:
  "map_get (cart s) k = Some entry \<Longrightarrow> quantity entry = of_integer n \<Longrightarrow> 0 \<le> n \<Longrightarrow>
   n + int (length items) \<le> 2 ^ 53 \<Longrightarrow> \<forall>i \<in> set items. item_id i = k \<Longrightarrow>
   map_get (cart (run_ops e (map Add items) s)) k
     = Some (entry\<lparr>quantity := of_integer (n + int (length items))\<rparr>)"
proof (induction items arbitrary: s entry n)
  case Nil
  then show ?case by simp
next
  case (Cons i items)
  have step: "js_add (of_integer n) (Finite 1) = of_integer (n + 1)"
    using js_add_integers [of n 1] Cons.prems(3, 4) by (simp add: of_integer_def)
  have "map_get (cart (addToCart e i s)) k = Some (entry\<lparr>quantity := of_integer (n + 1)\<rparr>)"
    using Cons.prems(1, 2, 5) step by (simp add: cart_addToCart map_get_set_quantity)
  from Cons.IH [OF this, of "n + 1"] Cons.prems(3, 4, 5) show ?case
    by (simp add: add.assoc)
qed

text \<open>
  C1, as the code has it. \<^verbatim>\<open>addToCart\<close> on an id that the store holds replaces the
  quantity \<open>q\<close> of its entry by the Number \<open>q + 1\<close> and keeps the entry's name, price and
  place, whatever name and price the argument carries; \<open>q + 1\<close> is \<open>q\<close> plus exactly 1 for
  a whole \<open>q\<close> below \<open>2^53\<close>. On an id that the store does not hold it appends an entry
  with the argument's id, name and price and quantity 1. The other entries stay as they
  are. Hence \<open>n\<close> calls in a row with one id, from a store without it, leave an entry of
  quantity \<open>n\<close> with the name and the price of the first call, for \<open>n\<close> up to \<open>2^53\<close>.
\<close>

theorem addToCart_spec:
  "(map_get (cart s) (item_id item) = Some existing \<longrightarrow>
      map_get (cart (addToCart e item s)) (item_id item)
        = Some (existing\<lparr>quantity := js_add (quantity existing) (Finite 1)\<rparr>)
      \<and> map fst (cart (addToCart e item s)) = map fst (cart s))
   \<and> (map_get (cart s) (item_id item) = Some existing \<and> quantity existing = of_integer n
        \<and> \<bar>n\<bar> < 2 ^ 53 \<longrightarrow>
      map_get (cart (addToCart e item s)) (item_id item)
        = Some (existing\<lparr>quantity := of_integer (n + 1)\<rparr>))
   \<and> (map_get (cart s) (item_id item) = None \<longrightarrow>
      map_get (cart (addToCart e item s)) (item_id item)
        = Some \<lparr>item_id = item_id item, name = name item, price = price item,
                 quantity = Finite 1\<rparr>
      \<and> map fst (cart (addToCart e item s)) = map fst (cart s) @ [item_id item])
   \<and> (k' \<noteq> item_id item \<longrightarrow>
      map_get (cart (addToCart e item s)) k' = map_get (cart s) k')
   \<and> (map_get (cart s) (item_id item) = None \<and> (\<forall>i \<in> set rest. item_id i = item_id item)
        \<and> int (length (item # rest)) \<le> 2 ^ 53 \<longrightarrow>
      map_get (cart (run_ops e (map Add (item # rest)) s)) (item_id item)
        = Some \<lparr>item_id = item_id item, name = name item, price = price item,
                 quantity = of_integer (int (length (item # rest)))\<rparr>)"
proof (intro conjI impI)
  assume "map_get (cart s) (item_id item) = Some existing"
  then show "map_get (cart (addToCart e item s)) (item_id item)
        = Some (existing\<lparr>quantity := js_add (quantity existing) (Finite 1)\<rparr>)"
    and "map fst (cart (addToCart e item s)) = map fst (cart s)"
    by (simp_all add: cart_addToCart map_get_set_quantity keys_set_quantity)
next
  assume a: "map_get (cart s) (item_id item) = Some existing \<and> quantity existing = of_integer n
      \<and> \<bar>n\<bar> < 2 ^ 53"
  then have "\<bar>n + 1\<bar> \<le> 2 ^ 53"
    by linarith
  then have "js_add (of_integer n) (of_integer 1) = of_integer (n + 1)"
    by (rule js_add_integers)
  with a have "js_add (quantity existing) (Finite 1) = of_integer (n + 1)"
    by (simp add: of_integer_def)
  with a show "map_get (cart (addToCart e item s)) (item_id item)
        = Some (existing\<lparr>quantity := of_integer (n + 1)\<rparr>)"
    by (simp add: cart_addToCart map_get_set_quantity)
next
  assume absent: "map_get (cart s) (item_id item) = None"
  then show "map_get (cart (addToCart e item s)) (item_id item)
        = Some \<lparr>item_id = item_id item, name = name item, price = price item,
                 quantity = Finite 1\<rparr>"
    by (simp add: cart_addToCart map_get_map_set extend_fields)
  from absent have "item_id item \<notin> set (map fst (cart s))"
    using map_get_None_keys [of "cart s" "item_id item"] by blast
  with absent show "map fst (cart (addToCart e item s)) = map fst (cart s) @ [item_id item]"
    by (simp add: cart_addToCart keys_map_set)
next
  assume "k' \<noteq> item_id item"
  then show "map_get (cart (addToCart e item s)) k' = map_get (cart s) k'"
    by (simp add: cart_addToCart map_get_set_quantity map_get_map_set split: option.splits)
next
  assume a: "map_get (cart s) (item_id item) = None \<and> (\<forall>i \<in> set rest. item_id i = item_id item)
      \<and> int (length (item # rest)) \<le> 2 ^ 53"
  let ?first = "\<lparr>item_id = item_id item, name = name item, price = price item,
                  quantity = Finite 1\<rparr>"
  from a have first: "map_get (cart (addToCart e item s)) (item_id item) = Some ?first"
    by (simp add: cart_addToCart map_get_map_set extend_fields)
  have q: "quantity ?first = of_integer 1"
    by (simp add: of_integer_def)
  from a have bound: "1 + int (length rest) \<le> 2 ^ 53"
    by simp
  from cart_add_run [OF first q _ bound, of e] a
  show "map_get (cart (run_ops e (map Add (item # rest)) s)) (item_id item)
        = Some \<lparr>item_id = item_id item, name = name item, price = price item,
                 quantity = of_integer (int (length (item # rest)))\<rparr>"
    by simp
qed

theorem addToCart_spec_witness:
  "map_get (cart (addToCart sample_env dosa (initial_state blank_page))) (item_id dosa)
     = Some \<lparr>item_id = ''A'', name = ''Dosa'', price = Finite 80, quantity = Finite 1\<rparr>
   \<and> map_get (cart (addToCart sample_env dosa_repriced
                      (addToCart sample_env dosa (initial_state blank_page)))) (item_id dosa)
     = Some \<lparr>item_id = ''A'', name = ''Dosa'', price = Finite 80, quantity = Finite 2\<rparr>
   \<and> map fst (cart (addToCart sample_env vada
                      (addToCart sample_env dosa (initial_state blank_page)))) = [''A'', ''B'']
   \<and> map_get (cart (addToCart sample_env vada
                      (addToCart sample_env dosa (initial_state blank_page)))) (item_id dosa)
     = Some \<lparr>item_id = ''A'', name = ''Dosa'', price = Finite 80, quantity = Finite 1\<rparr>
   \<and> map_get (cart (run_ops sample_env (map Add [dosa, dosa_repriced, dosa])
                      (initial_state blank_page))) (item_id dosa)
     = Some \<lparr>item_id = ''A'', name = ''Dosa'', price = Finite 80, quantity = Finite 3\<rparr>"
proof -
  let ?s0 = "initial_state blank_page"
  let ?s1 = "addToCart sample_env dosa ?s0"
  let ?d1 = "\<lparr>item_id = ''A'', name = ''Dosa'', price = Finite 80, quantity = Finite 1\<rparr>"
  note spec0 = addToCart_spec [where s = ?s0 and item = dosa and e = sample_env
      and rest = "[dosa_repriced, dosa]"]
  note spec1 = addToCart_spec [where s = ?s1 and item = dosa_repriced and existing = ?d1
      and e = sample_env and n = 1]
  note spec2 = addToCart_spec [where s = ?s1 and item = vada and e = sample_env
      and k' = "item_id dosa"]
  have absent: "map_get (cart ?s0) (item_id dosa) = None"
    by (simp add: initial_state_def map_get_def)
  have run: "map_get (cart ?s0) (item_id dosa) = None
      \<and> (\<forall>i \<in> set [dosa_repriced, dosa]. item_id i = item_id dosa)
      \<and> int (length [dosa, dosa_repriced, dosa]) \<le> 2 ^ 53"
    by (simp add: initial_state_def map_get_def dosa_def dosa_repriced_def)
  have ids: "item_id dosa_repriced = item_id dosa" and other: "item_id dosa \<noteq> item_id vada"
    by (simp_all add: dosa_def dosa_repriced_def vada_def)
  have fields: "\<lparr>item_id = item_id dosa, name = name dosa, price = price dosa, quantity = q\<rparr>
      = \<lparr>item_id = ''A'', name = ''Dosa'', price = Finite 80, quantity = q\<rparr>" for q
    by (simp add: dosa_def)
  have one: "map_get (cart ?s1) (item_id dosa) = Some ?d1"
    and keys1: "map fst (cart ?s1) = [item_id dosa]"
    using spec0 [THEN conjunct2, THEN conjunct2, THEN conjunct1, THEN mp, OF absent]
    by (simp_all add: fields initial_state_def)
  have present: "map_get (cart ?s1) (item_id dosa_repriced) = Some ?d1
      \<and> quantity ?d1 = of_integer 1 \<and> \<bar>1 :: int\<bar> < 2 ^ 53"
    using one by (simp add: ids of_integer_def)
  have two: "map_get (cart (addToCart sample_env dosa_repriced ?s1)) (item_id dosa)
      = Some \<lparr>item_id = ''A'', name = ''Dosa'', price = Finite 80, quantity = Finite 2\<rparr>"
    using spec1 [THEN conjunct2, THEN conjunct1, THEN mp, OF present]
    by (simp add: ids of_integer_def)
  have new: "map_get (cart ?s1) (item_id vada) = None"
    using keys1 other map_get_None_keys [of "cart ?s1" "item_id vada"] by simp
  have keys2: "map fst (cart (addToCart sample_env vada ?s1)) = [''A'', ''B'']"
    using spec2 [THEN conjunct2, THEN conjunct2, THEN conjunct1, THEN mp, OF new] keys1
    by (simp add: dosa_def vada_def)
  have kept: "map_get (cart (addToCart sample_env vada ?s1)) (item_id dosa) = Some ?d1"
    using spec2 [THEN conjunct2, THEN conjunct2, THEN conjunct2, THEN conjunct1, THEN mp,
        OF other] one
    by simp
  have three: "map_get (cart (run_ops sample_env (map Add [dosa, dosa_repriced, dosa]) ?s0))
        (item_id dosa)
      = Some \<lparr>item_id = ''A'', name = ''Dosa'', price = Finite 80, quantity = Finite 3\<rparr>"
    using spec0 [THEN conjunct2, THEN conjunct2, THEN conjunct2, THEN conjunct2, THEN mp, OF run]
    by (simp add: fields of_integer_def del: run_ops.simps list.map)
  from one two keys2 kept three show ?thesis
    by (simp only: simp_thms)
qed

text \<open>
  An entry of quantity \<open>2^53\<close>, which one \<^verbatim>\<open>updateQuantity\<close> reaches: the next
  \<^verbatim>\<open>addToCart\<close> leaves the quantity as it is, since \<open>2^53 + 1\<close> is no double.
\<close>

theorem addToCart_spec_counterexample:
  "map_get (cart (run_ops sample_env [Add dosa, AdjustQuantity ''A'' 9007199254740991]
                    (initial_state blank_page))) ''A''
     = Some \<lparr>item_id = ''A'', name = ''Dosa'', price = Finite 80,
              quantity = Finite 9007199254740992\<rparr>
   \<and> map_get (cart (run_ops sample_env [Add dosa, AdjustQuantity ''A'' 9007199254740991, Add dosa]
                      (initial_state blank_page))) ''A''
     = Some \<lparr>item_id = ''A'', name = ''Dosa'', price = Finite 80,
              quantity = Finite 9007199254740992\<rparr>"
proof -
  let ?s1 = "addToCart sample_env dosa (initial_state blank_page)"
  let ?s2 = "updateQuantity sample_env ''A'' (of_integer 9007199254740991) ?s1"
  have c1: "cart ?s1 = [(''A'', \<lparr>item_id = ''A'', name = ''Dosa'', price = Finite 80,
                                 quantity = Finite 1\<rparr>)]"
    by (simp add: cart_addToCart initial_state_def map_get_def dosa_def extend_fields)
  have sum: "js_add (Finite 1) (of_integer 9007199254740991) = Finite 9007199254740992"
    using js_add_integers [of 1 9007199254740991] by (simp add: of_integer_def)
  have c2: "cart ?s2 = [(''A'', \<lparr>item_id = ''A'', name = ''Dosa'', price = Finite 80,
                                 quantity = Finite 9007199254740992\<rparr>)]"
    by (simp only: cart_updateQuantity c1) (simp add: map_get_def sum set_quantity_def)
  have c3: "cart (addToCart sample_env dosa ?s2)
      = [(''A'', \<lparr>item_id = ''A'', name = ''Dosa'', price = Finite 80,
                   quantity = Finite 9007199254740992\<rparr>)]"
    by (simp only: cart_addToCart c2)
       (simp add: map_get_def dosa_def round64_tie_above_2_53 set_quantity_def)
  from c2 c3 show ?thesis
    by (simp add: map_get_def)
qed

section \<open>Totals\<close>

lemma foldl_js_add_integers:
  "\<bar>a\<bar> + (\<Sum>z\<leftarrow>zs. \<bar>z\<bar>) \<le> 2 ^ 53 \<Longrightarrow>
   foldl js_add (of_integer a) (map of_integer zs) = of_integer (a + sum_list zs)"
proof (induction zs arbitrary: a)
  case Nil
  then show ?case by simp
next
  case (Cons z zs)
  from Cons.prems have "\<bar>a + z\<bar> \<le> 2 ^ 53"
    using sum_list_abs [of zs] by (simp add: comp_def)
  then have step: "js_add (of_integer a) (of_integer z) = of_integer (a + z)"
    by (rule js_add_integers)
  have "\<bar>a + z\<bar> + (\<Sum>z\<leftarrow>zs. \<bar>z\<bar>) \<le> 2 ^ 53"
    using Cons.prems by simp
  from Cons.IH [OF this] step show ?case
    by (simp add: add.assoc)
qed

lemma whole_line_totals:
  assumes "(\<Sum>(k, nm, p, n)\<leftarrow>rows. \<bar>p * n\<bar>) \<le> 2 ^ 53"
  shows "map (\<lambda>(k, item). js_mul (price item) (quantity item))
           (map (\<lambda>(k, nm, p, n). (k, \<lparr>item_id = k, name = nm, price = of_integer p,
                                          quantity = of_integer n\<rparr>)) rows)
         = map of_integer (map (\<lambda>(k, nm, p, n). p * n) rows)"
  using assms
proof (induction rows)
  case Nil
  then show ?case by simp
next
  case (Cons r rows)
  obtain k nm p n where r: "r = (k, nm, p, n)"
    by (cases r)
  have nonneg: "0 \<le> (\<Sum>(k, nm, p, n)\<leftarrow>rows. \<bar>p * n\<bar>)"
    by (rule sum_list_nonneg) auto
  with Cons.prems have "\<bar>p * n\<bar> \<le> 2 ^ 53" and "(\<Sum>(k, nm, p, n)\<leftarrow>rows. \<bar>p * n\<bar>) \<le> 2 ^ 53"
    by (simp_all add: r)
  with Cons.IH show ?case
    by (simp add: r js_mul_integers)
qed

text \<open>
  C2, as the code has it. \<^verbatim>\<open>calculateTotals\<close> returns as \<open>itemsTotal\<close> the sum of price
  times quantity over the entries in the arithmetic of Numbers: the entries in their
  order, every product and every partial sum rounded to the nearest double. As
  \<open>grandTotal\<close> it returns the same value, and for the empty store both are 0. Where the
  prices and the quantities are whole numbers and the line totals add up to at most
  \<open>2^53\<close> in magnitude, nothing is rounded and \<open>itemsTotal\<close> is the exact sum.
\<close>

theorem calculateTotals_spec:
  "itemsTotal (fst (calculateTotals s))
     = js_sum (map (\<lambda>(k, item). js_mul (price item) (quantity item)) (cart s))
   \<and> grandTotal (fst (calculateTotals s)) = itemsTotal (fst (calculateTotals s))
   \<and> fst (calculateTotals (s\<lparr>cart := []\<rparr>)) = \<lparr>itemsTotal = Finite 0, grandTotal = Finite 0\<rparr>
   \<and> (cart s = map (\<lambda>(k, nm, p, n). (k, \<lparr>item_id = k, name = nm, price = of_integer p,
                                             quantity = of_integer n\<rparr>)) rows
        \<and> (\<Sum>(k, nm, p, n)\<leftarrow>rows. \<bar>p * n\<bar>) \<le> 2 ^ 53 \<longrightarrow>
      itemsTotal (fst (calculateTotals s)) = of_integer (\<Sum>(k, nm, p, n)\<leftarrow>rows. p * n))"
proof (intro conjI impI)
  show "itemsTotal (fst (calculateTotals s))
     = js_sum (map (\<lambda>(k, item). js_mul (price item) (quantity item)) (cart s))"
    by (rule itemsTotal_sum)
  show "grandTotal (fst (calculateTotals s)) = itemsTotal (fst (calculateTotals s))"
    by (simp add: calculateTotals_def Let_def)
  show "fst (calculateTotals (s\<lparr>cart := []\<rparr>)) = \<lparr>itemsTotal = Finite 0, grandTotal = Finite 0\<rparr>"
    by (simp add: calculateTotals_def Let_def)
next
  assume a: "cart s = map (\<lambda>(k, nm, p, n). (k, \<lparr>item_id = k, name = nm, price = of_integer p,
                                                  quantity = of_integer n\<rparr>)) rows
      \<and> (\<Sum>(k, nm, p, n)\<leftarrow>rows. \<bar>p * n\<bar>) \<le> 2 ^ 53"
  let ?zs = "map (\<lambda>(k, nm, p, n). p * n) rows"
  have abs: "(\<Sum>z\<leftarrow>?zs. \<bar>z\<bar>) = (\<Sum>(k, nm, p, n)\<leftarrow>rows. \<bar>p * n\<bar>)"
    by (simp add: comp_def case_prod_unfold)
  have "itemsTotal (fst (calculateTotals s)) = foldl js_add (of_integer 0) (map of_integer ?zs)"
    using a whole_line_totals [of rows]
    by (simp only: itemsTotal_sum js_sum_def) (simp add: of_integer_def)
  also have "\<dots> = of_integer (0 + sum_list ?zs)"
  proof (rule foldl_js_add_integers)
    show "\<bar>0 :: int\<bar> + (\<Sum>z\<leftarrow>?zs. \<bar>z\<bar>) \<le> 2 ^ 53"
      unfolding abs using a by simp
  qed
  finally show "itemsTotal (fst (calculateTotals s))
      = of_integer (\<Sum>(k, nm, p, n)\<leftarrow>rows. p * n)"
    by simp
qed

theorem calculateTotals_spec_witness:
  "itemsTotal (fst (calculateTotals
       (run_ops sample_env [Add dosa, Add vada, Add dosa] (initial_state blank_page))))
     = Finite 280
   \<and> grandTotal (fst (calculateTotals
       (run_ops sample_env [Add dosa, Add vada, Add dosa] (initial_state blank_page))))
     = Finite 280"
proof -
  let ?s = "run_ops sample_env [Add dosa, Add vada, Add dosa] (initial_state blank_page)"
  let ?rows = "[(''A'', ''Dosa'', 80, 2), (''B'', ''Vada'', 120, 1)] :: (string \<times> string \<times> int \<times> int) list"
  have two: "js_add (Finite 1) (Finite 1) = Finite 2"
    using js_add_integers [of 1 1] by (simp add: of_integer_def)
  have c: "cart ?s = [(''A'', \<lparr>item_id = ''A'', name = ''Dosa'', price = Finite 80,
                                quantity = Finite 2\<rparr>),
                      (''B'', \<lparr>item_id = ''B'', name = ''Vada'', price = Finite 120,
                                quantity = Finite 1\<rparr>)]"
    by (simp add: cart_addToCart initial_state_def map_get_def dosa_def vada_def extend_fields
          set_quantity_def two del: js_add.simps)
  have "cart ?s = map (\<lambda>(k, nm, p, n). (k, \<lparr>item_id = k, name = nm, price = of_integer p,
                                              quantity = of_integer n\<rparr>)) ?rows
      \<and> (\<Sum>(k, nm, p, n)\<leftarrow>?rows. \<bar>p * n\<bar>) \<le> 2 ^ 53"
    unfolding c by (simp add: of_integer_def)
  from calculateTotals_spec [where s = ?s and rows = ?rows, THEN conjunct2, THEN conjunct2,
      THEN conjunct2, THEN mp, OF this]
  have "itemsTotal (fst (calculateTotals ?s)) = Finite 280"
    by (simp add: of_integer_def del: run_ops.simps)
  with calculateTotals_spec [where s = ?s, THEN conjunct2, THEN conjunct1] show ?thesis
    by (simp only: simp_thms)
qed

text \<open>
  A store with one item at 0.1 and one at 0.2: the total is the double
  0.30000000000000004, not the sum of the two prices.
\<close>

theorem calculateTotals_spec_counterexample:
  "itemsTotal (fst (calculateTotals
       \<lparr>cart = [(''A'', \<lparr>item_id = ''A'', name = ''Dosa'', price = Finite double_0_1,
                          quantity = Finite 1\<rparr>),
                 (''B'', \<lparr>item_id = ''B'', name = ''Vada'', price = Finite double_0_2,
                          quantity = Finite 1\<rparr>)],
         page = blank_page, calls = []\<rparr>))
     = Finite (1351079888211149 / 2 ^ 52)
   \<and> Finite (1351079888211149 / 2 ^ 52) \<noteq> Finite (double_0_1 + double_0_2)"
proof -
  have r1: "round64 double_0_1 = Finite double_0_1"
    unfolding double_0_1_def
    by (subst round64_value [where e = "- 4" and r = "3602879701896397 / 2 ^ 55"])
       (simp_all add: round_half_even_def Let_def floor_numeral_divide)
  have r2: "round64 double_0_2 = Finite double_0_2"
    unfolding double_0_2_def
    by (subst round64_value [where e = "- 3" and r = "3602879701896397 / 2 ^ 54"])
       (simp_all add: round_half_even_def Let_def floor_numeral_divide)
  have m1: "js_mul (Finite double_0_1) (Finite 1) = Finite double_0_1"
    and m2: "js_mul (Finite double_0_2) (Finite 1) = Finite double_0_2"
    and a1: "js_add (Finite 0) (Finite double_0_1) = Finite double_0_1"
    by (simp_all add: r1 r2)
  have total: "js_sum [Finite double_0_1, Finite double_0_2] = Finite (1351079888211149 / 2 ^ 52)"
    by (simp only: js_sum_def foldl.simps a1 sum_0_1_0_2)
  have differ: "Finite (1351079888211149 / 2 ^ 52) \<noteq> Finite (double_0_1 + double_0_2)"
    by (simp add: double_0_1_def double_0_2_def)
  have "itemsTotal (fst (calculateTotals
       \<lparr>cart = [(''A'', \<lparr>item_id = ''A'', name = ''Dosa'', price = Finite double_0_1,
                          quantity = Finite 1\<rparr>),
                 (''B'', \<lparr>item_id = ''B'', name = ''Vada'', price = Finite double_0_2,
                          quantity = Finite 1\<rparr>)],
         page = blank_page, calls = []\<rparr>))
     = js_sum [Finite double_0_1, Finite double_0_2]"
    by (simp add: itemsTotal_sum m1 m2 del: js_mul.simps)
  with total differ show ?thesis
    by (simp only: simp_thms)
qed

text \<open>
  C7. \<^verbatim>\<open>calculateTotals\<close> only reads: the state after it is the state before it, with
  the same entries in the same order.
\<close>

theorem calculateTotals_pure:
  "snd (calculateTotals s) = s"
  by (simp add: calculateTotals_def Let_def)

section \<open>Changing a quantity\<close>

text \<open>
  C3, as the code has it. \<^verbatim>\<open>updateQuantity\<close> on an id that the store does not hold changes
  nothing. On an id that it holds, with \<open>newQty\<close> the Number \<^verbatim>\<open>item.quantity + delta\<close>: the
  entry is gone when \<open>newQty <= 0\<close>, and has quantity \<open>newQty\<close> otherwise, its other fields
  as before. For a whole quantity \<open>n\<close> and a whole delta \<open>d\<close> the entry is gone exactly when
  \<open>n + d \<le> 0\<close>, and otherwise its quantity is \<open>n + d\<close> rounded to the nearest double, which
  is \<open>n + d\<close> itself up to \<open>2^53\<close>. The other entries stay. A delta of minus the quantity
  removes the entry.
\<close>

theorem updateQuantity_spec:
  "(map_get (cart s) k = None \<longrightarrow> updateQuantity e k delta s = s)
   \<and> (map_get (cart s) k = Some item \<and> js_le (js_add (quantity item) delta) (Finite 0) \<longrightarrow>
        map_get (cart (updateQuantity e k delta s)) k = None)
   \<and> (map_get (cart s) k = Some item \<and> \<not> js_le (js_add (quantity item) delta) (Finite 0) \<longrightarrow>
        map_get (cart (updateQuantity e k delta s)) k
          = Some (item\<lparr>quantity := js_add (quantity item) delta\<rparr>))
   \<and> (map_get (cart s) k = Some item \<and> quantity item = of_integer n \<and> n + d \<le> 0 \<longrightarrow>
        map_get (cart (updateQuantity e k (of_integer d) s)) k = None)
   \<and> (map_get (cart s) k = Some item \<and> quantity item = of_integer n \<and> 0 < n + d \<longrightarrow>
        map_get (cart (updateQuantity e k (of_integer d) s)) k
          = Some (item\<lparr>quantity := round64 (of_int (n + d))\<rparr>))
   \<and> (map_get (cart s) k = Some item \<and> quantity item = of_integer n \<and> 0 < n + d
        \<and> n + d \<le> 2 ^ 53 \<longrightarrow>
        map_get (cart (updateQuantity e k (of_integer d) s)) k
          = Some (item\<lparr>quantity := of_integer (n + d)\<rparr>))
   \<and> (k' \<noteq> k \<longrightarrow> map_get (cart (updateQuantity e k delta s)) k' = map_get (cart s) k')
   \<and> (map_get (cart s) k = Some item \<and> quantity item = Finite x \<longrightarrow>
        map_get (cart (updateQuantity e k (js_neg (quantity item)) s)) k = None)"
proof (intro conjI impI)
  assume "map_get (cart s) k = None"
  then show "updateQuantity e k delta s = s"
    by (simp add: updateQuantity_def)
next
  assume "map_get (cart s) k = Some item \<and> js_le (js_add (quantity item) delta) (Finite 0)"
  then show "map_get (cart (updateQuantity e k delta s)) k = None"
    by (simp add: cart_updateQuantity map_get_map_delete)
next
  assume "map_get (cart s) k = Some item \<and> \<not> js_le (js_add (quantity item) delta) (Finite 0)"
  then show "map_get (cart (updateQuantity e k delta s)) k
      = Some (item\<lparr>quantity := js_add (quantity item) delta\<rparr>)"
    by (simp add: cart_updateQuantity map_get_set_quantity)
next
  assume a: "map_get (cart s) k = Some item \<and> quantity item = of_integer n \<and> n + d \<le> 0"
  then have "js_le (js_add (quantity item) (of_integer d)) (Finite 0)"
    by (simp add: js_add_integers_nonpos)
  with a show "map_get (cart (updateQuantity e k (of_integer d) s)) k = None"
    by (simp add: cart_updateQuantity map_get_map_delete)
next
  assume a: "map_get (cart s) k = Some item \<and> quantity item = of_integer n \<and> 0 < n + d"
  then have "whole_positive (js_add (quantity item) (of_integer d))"
    by (simp add: js_add_integers_positive)
  then have "\<not> js_le (js_add (quantity item) (of_integer d)) (Finite 0)"
    by (rule whole_positive_not_le_0)
  moreover have "js_add (quantity item) (of_integer d) = round64 (of_int (n + d))"
    using a by (simp add: of_integer_def)
  ultimately show "map_get (cart (updateQuantity e k (of_integer d) s)) k
      = Some (item\<lparr>quantity := round64 (of_int (n + d))\<rparr>)"
    using a by (simp add: cart_updateQuantity map_get_set_quantity)
next
  assume a: "map_get (cart s) k = Some item \<and> quantity item = of_integer n \<and> 0 < n + d
      \<and> n + d \<le> 2 ^ 53"
  then have "\<bar>n + d\<bar> \<le> 2 ^ 53"
    by simp
  then have sum: "js_add (of_integer n) (of_integer d) = of_integer (n + d)"
    by (rule js_add_integers)
  have "\<not> js_le (of_integer (n + d)) (Finite 0)"
    using a by (simp add: of_integer_def)
  with a sum show "map_get (cart (updateQuantity e k (of_integer d) s)) k
      = Some (item\<lparr>quantity := of_integer (n + d)\<rparr>)"
    by (simp add: cart_updateQuantity map_get_set_quantity)
next
  assume "k' \<noteq> k"
  then show "map_get (cart (updateQuantity e k delta s)) k' = map_get (cart s) k'"
    by (simp add: cart_updateQuantity map_get_set_quantity map_get_map_delete
             split: option.splits)
next
  assume a: "map_get (cart s) k = Some item \<and> quantity item = Finite x"
  then have "js_add (quantity item) (js_neg (quantity item)) = Finite 0"
    by (simp add: round64_def)
  with a show "map_get (cart (updateQuantity e k (js_neg (quantity item)) s)) k = None"
    by (simp add: cart_updateQuantity map_get_map_delete)
qed

theorem updateQuantity_spec_witness:
  "updateQuantity sample_env ''B'' (of_integer 1)
       (addToCart sample_env dosa (initial_state blank_page))
     = addToCart sample_env dosa (initial_state blank_page)
   \<and> map_get (cart (updateQuantity sample_env ''A'' (of_integer (- 1))
                      (addToCart sample_env dosa (initial_state blank_page)))) ''A'' = None
   \<and> map_get (cart (updateQuantity sample_env ''A'' (of_integer 2)
                      (addToCart sample_env dosa (initial_state blank_page)))) ''A''
     = Some \<lparr>item_id = ''A'', name = ''Dosa'', price = Finite 80, quantity = Finite 3\<rparr>
   \<and> map_get (cart (updateQuantity sample_env ''A'' (of_integer 2)
                      (addToCart sample_env dosa (initial_state blank_page)))) ''B''
     = map_get (cart (addToCart sample_env dosa (initial_state blank_page))) ''B''
   \<and> map_get (cart (updateQuantity sample_env ''A'' (Finite (- 1))
                      (addToCart sample_env dosa (initial_state blank_page)))) ''A'' = None"
proof -
  let ?s1 = "addToCart sample_env dosa (initial_state blank_page)"
  let ?d1 = "\<lparr>item_id = ''A'', name = ''Dosa'', price = Finite 80, quantity = Finite 1\<rparr>"
  have c1: "cart ?s1 = [(''A'', ?d1)]"
    by (simp add: cart_addToCart initial_state_def map_get_def dosa_def extend_fields)
  have held: "map_get (cart ?s1) ''A'' = Some ?d1" and missing: "map_get (cart ?s1) ''B'' = None"
    by (simp_all add: c1 map_get_def)
  have down: "map_get (cart ?s1) ''A'' = Some ?d1 \<and> quantity ?d1 = of_integer 1 \<and> 1 + (- 1) \<le> (0::int)"
    and up: "map_get (cart ?s1) ''A'' = Some ?d1 \<and> quantity ?d1 = of_integer 1 \<and> (0::int) < 1 + 2
      \<and> 1 + 2 \<le> (2::int) ^ 53"
    and minus: "map_get (cart ?s1) ''A'' = Some ?d1 \<and> quantity ?d1 = Finite 1"
    using held by (simp_all add: of_integer_def)
  have other: "''B'' \<noteq> ''A''"
    by simp
  note spec_absent = updateQuantity_spec [where s = ?s1 and k = "''B''" and e = sample_env
      and delta = "of_integer 1"]
  note spec_down = updateQuantity_spec [where s = ?s1 and k = "''A''" and e = sample_env
      and item = ?d1 and n = 1 and d = "- 1"]
  note spec_up = updateQuantity_spec [where s = ?s1 and k = "''A''" and e = sample_env
      and delta = "of_integer 2" and item = ?d1 and n = 1 and d = 2 and k' = "''B''"]
  note spec_minus = updateQuantity_spec [where s = ?s1 and k = "''A''" and e = sample_env
      and item = ?d1 and x = 1]
  note absent = spec_absent [THEN conjunct1, THEN mp, OF missing]
  note gone = spec_down [THEN conjunct2, THEN conjunct2, THEN conjunct2, THEN conjunct1,
      THEN mp, OF down]
  note more = spec_up [THEN conjunct2, THEN conjunct2, THEN conjunct2, THEN conjunct2,
      THEN conjunct2, THEN conjunct1, THEN mp, OF up]
  note frame = spec_up [THEN conjunct2, THEN conjunct2, THEN conjunct2, THEN conjunct2,
      THEN conjunct2, THEN conjunct2, THEN conjunct1, THEN mp, OF other]
  note negated = spec_minus [THEN conjunct2, THEN conjunct2, THEN conjunct2, THEN conjunct2,
      THEN conjunct2, THEN conjunct2, THEN conjunct2, THEN mp, OF minus]
  from absent gone more frame negated show ?thesis
    by (simp add: of_integer_def)
qed

text \<open>
  Quantity 1 and delta \<open>2^53\<close>: the entry gets the quantity \<open>2^53\<close>, not \<open>2^53 + 1\<close>.
\<close>

theorem updateQuantity_spec_counterexample:
  "map_get (cart (updateQuantity sample_env ''A'' (of_integer 9007199254740992)
                    (addToCart sample_env dosa (initial_state blank_page)))) ''A''
     = Some \<lparr>item_id = ''A'', name = ''Dosa'', price = Finite 80,
              quantity = Finite 9007199254740992\<rparr>
   \<and> Finite 9007199254740992 \<noteq> of_integer (1 + 9007199254740992)"
proof -
  let ?s1 = "addToCart sample_env dosa (initial_state blank_page)"
  have c1: "cart ?s1 = [(''A'', \<lparr>item_id = ''A'', name = ''Dosa'', price = Finite 80,
                                 quantity = Finite 1\<rparr>)]"
    by (simp add: cart_addToCart initial_state_def map_get_def dosa_def extend_fields)
  have "cart (updateQuantity sample_env ''A'' (of_integer 9007199254740992) ?s1)
      = [(''A'', \<lparr>item_id = ''A'', name = ''Dosa'', price = Finite 80,
                   quantity = Finite 9007199254740992\<rparr>)]"
    by (simp only: cart_updateQuantity c1)
       (simp add: map_get_def of_integer_def round64_tie_above_2_53 set_quantity_def)
  then show ?thesis
    by (simp add: map_get_def of_integer_def)
qed

section \<open>Quantities stay positive\<close>

lemma positive_map_set:
  "quantities_positive m \<Longrightarrow> whole_positive (quantity v) \<Longrightarrow> quantities_positive (map_set m k v)"
  by (induction m) (auto simp: quantities_positive_def)

lemma positive_set_quantity:
  "quantities_positive m \<Longrightarrow> whole_positive q \<Longrightarrow> quantities_positive (set_quantity m k q)"
  by (induction m) (auto simp: quantities_positive_def set_quantity_def split: if_splits)

lemma positive_map_delete:
  "quantities_positive m \<Longrightarrow> quantities_positive (map_delete m k)"
  by (induction m) (auto simp: quantities_positive_def map_delete_def)

lemma positive_map_get:
  "quantities_positive m \<Longrightarrow> map_get m k = Some v \<Longrightarrow> whole_positive (quantity v)"
  by (auto simp: quantities_positive_def map_get_def list_all_iff dest: map_of_SomeD)

lemma positive_apply_op:
  assumes "quantities_positive (cart s)"
  shows "quantities_positive (cart (apply_op e x s))"
proof (cases x)
  case (Add item)
  show ?thesis
  proof (cases "map_get (cart s) (item_id item)")
    case None
    with Add assms show ?thesis
      by (simp add: cart_addToCart positive_map_set extend_fields whole_positive_def)
  next
    case (Some existing)
    with assms have "whole_positive (quantity existing)"
      by (rule positive_map_get)
    then have "whole_positive (js_add (quantity existing) (Finite 1))"
      by (rule whole_positive_add_one)
    with Add Some assms show ?thesis
      by (simp add: cart_addToCart positive_set_quantity)
  qed
next
  case (AdjustQuantity k delta)
  show ?thesis
  proof (cases "map_get (cart s) k")
    case None
    with AdjustQuantity assms show ?thesis
      by (simp add: cart_updateQuantity)
  next
    case (Some item)
    with assms have q: "whole_positive (quantity item)"
      by (rule positive_map_get)
    show ?thesis
    proof (cases "js_le (js_add (quantity item) (of_integer delta)) (Finite 0)")
      case True
      with AdjustQuantity Some assms show ?thesis
        by (simp add: cart_updateQuantity positive_map_delete)
    next
      case False
      with q have "whole_positive (js_add (quantity item) (of_integer delta))"
        by (rule whole_positive_adjust)
      with AdjustQuantity Some False assms show ?thesis
        by (simp add: cart_updateQuantity positive_set_quantity)
    qed
  qed
next
  case (Remove k)
  with assms show ?thesis
    by (simp add: cart_removeFromCart positive_map_delete)
next
  case Clear
  then show ?thesis
    by (simp add: cart_clearCart quantities_positive_def)
qed

lemma positive_run_ops:
  "quantities_positive (cart s) \<Longrightarrow> quantities_positive (cart (run_ops e xs s))"
  by (induction xs arbitrary: s) (simp_all add: positive_apply_op)

text \<open>
  C4. Whatever run of \<^verbatim>\<open>addToCart\<close>, \<^verbatim>\<open>updateQuantity\<close>, \<^verbatim>\<open>removeFromCart\<close> and
  \<^verbatim>\<open>clearCart\<close> starts from the empty store, every entry of the store it reaches has a
  quantity of at least 1.
\<close>

theorem quantity_invariant:
  "\<forall>(k, item) \<in> set (cart (run_ops e xs (initial_state d))). js_le (Finite 1) (quantity item)"
proof -
  have "quantities_positive (cart (initial_state d))"
    by (simp add: initial_state_def quantities_positive_def)
  then have "quantities_positive (cart (run_ops e xs (initial_state d)))"
    by (rule positive_run_ops)
  then show ?thesis
    by (auto simp: quantities_positive_def list_all_iff intro: whole_positive_ge_1)
qed

theorem quantity_invariant_witness:
  "cart (run_ops sample_env [Add dosa, Add vada, Add dosa, AdjustQuantity ''B'' (- 1)]
          (initial_state blank_page))
     = [(''A'', \<lparr>item_id = ''A'', name = ''Dosa'', price = Finite 80, quantity = Finite 2\<rparr>)]
   \<and> js_le (Finite 1)
        (quantity \<lparr>item_id = ''A'', name = ''Dosa'', price = Finite 80, quantity = Finite 2\<rparr>)"
proof -
  let ?xs = "[Add dosa, Add vada, Add dosa, AdjustQuantity ''B'' (- 1)]"
  let ?d2 = "\<lparr>item_id = ''A'', name = ''Dosa'', price = Finite 80, quantity = Finite 2\<rparr>"
  have two: "js_add (Finite 1) (Finite 1) = Finite 2"
    and zero: "js_add (Finite 1) (Finite (- 1)) = Finite 0"
    using js_add_integers [of 1 1] js_add_integers [of 1 "- 1"] by (simp_all add: of_integer_def)
  have c: "cart (run_ops sample_env ?xs (initial_state blank_page)) = [(''A'', ?d2)]"
    by (simp add: cart_addToCart cart_updateQuantity initial_state_def map_get_def
          map_delete_def set_quantity_def dosa_def vada_def extend_fields of_integer_def
          two zero del: js_add.simps)
  have "(''A'', ?d2) \<in> set (cart (run_ops sample_env ?xs (initial_state blank_page)))"
    unfolding c by simp
  with quantity_invariant [of sample_env ?xs blank_page] have "js_le (Finite 1) (quantity ?d2)"
    by blast
  with c show ?thesis
    by (simp only: simp_thms)
qed

section \<open>Removing\<close>

lemma forEach_rows:
  "forEach (\<lambda>item d. d\<lparr>cartItems := cartItems d @ [f item]\<rparr>) m d
     = d\<lparr>cartItems := cartItems d @ map (\<lambda>(k, item). f item) m\<rparr>"
  by (induction m arbitrary: d) auto

lemma page_updateQRCode:
  "page (updateQRCode e a s) =
     (if hasQrCodeImage e
      then (page s)\<lparr>qrCodeImageSrc :=
                       ''https://api.qrserver.com/v1/create-qr-code/?size=200x200&data=''
                       @ encodeURIComponent (upiUrl a),
                     qrAmountText := ''Total Amount: '' @ formatINR a\<rparr>
      else page s)"
  by (simp add: updateQRCode_def Let_def)

lemma page_renderCart:
  "page (renderCart e s) =
     page (updateQRCode e (itemsTotal (fst (calculateTotals s)))
       (s\<lparr>page := (page s)
          \<lparr>cartItems := map (\<lambda>(k, item). render_row item) (cart s),
           cartEmptyDisplay := (if map_size (cart s) = 0 then ''block'' else ''none''),
           checkoutDisabled := (map_size (cart s) = 0),
           clearCartDisabled := (map_size (cart s) = 0),
           itemsTotalText := formatINR (itemsTotal (fst (calculateTotals s))),
           grandTotalText := formatINR (itemsTotal (fst (calculateTotals s)))\<rparr>\<rparr>))"
  apply (simp only: renderCart_def calculateTotals_def Let_def split_conv fst_conv snd_conv)
  apply (simp only: forEach_rows page_updateQRCode)
  apply (simp add: map_size_def del: append_eq_append_conv)
  done

lemma map_delete_twice: "map_delete (map_delete m k) k = map_delete m k"
  by (simp add: map_delete_def)

lemma page_renderCart_twice:
  "page (renderCart e (renderCart e s)) = page (renderCart e s)"
  by (simp add: page_renderCart [of e "renderCart e s"] cart_renderCart itemsTotal_sum
        page_updateQRCode)
     (simp add: page_renderCart page_updateQRCode itemsTotal_sum)

lemma render_same_cart:
  "(renderCart e s)\<lparr>cart := cart s\<rparr> = renderCart e s"
  by (simp add: cart_renderCart [symmetric])

text \<open>
  C6. A second \<^verbatim>\<open>removeFromCart\<close> of the same id changes neither the store nor the page
  that the first one left.
\<close>

theorem removeFromCart_idempotent:
  "cart (removeFromCart e k (removeFromCart e k s)) = cart (removeFromCart e k s)
   \<and> page (removeFromCart e k (removeFromCart e k s)) = page (removeFromCart e k s)"
proof
  show "cart (removeFromCart e k (removeFromCart e k s)) = cart (removeFromCart e k s)"
    by (simp add: cart_removeFromCart map_delete_twice)
next
  let ?s1 = "s\<lparr>cart := map_delete (cart s) k\<rparr>"
  have "cart (renderCart e ?s1) = map_delete (cart s) k"
    by (simp add: cart_renderCart)
  then have "(renderCart e ?s1)\<lparr>cart := map_delete (cart (renderCart e ?s1)) k\<rparr>
      = (renderCart e ?s1)\<lparr>cart := cart ?s1\<rparr>"
    by (simp add: map_delete_twice)
  also have "\<dots> = renderCart e ?s1"
    by (rule render_same_cart)
  finally show "page (removeFromCart e k (removeFromCart e k s)) = page (removeFromCart e k s)"
    by (simp add: removeFromCart_def page_renderCart_twice)
qed

theorem removeFromCart_idempotent_witness:
  "cart (removeFromCart sample_env ''A''
           (removeFromCart sample_env ''A'' (addToCart sample_env dosa (initial_state blank_page))))
     = []
   \<and> cart (removeFromCart sample_env ''A'' (addToCart sample_env dosa (initial_state blank_page)))
     = []"
proof -
  let ?s1 = "addToCart sample_env dosa (initial_state blank_page)"
  have once: "cart (removeFromCart sample_env ''A'' ?s1) = []"
    by (simp add: cart_removeFromCart cart_addToCart initial_state_def map_get_def
          map_delete_def dosa_def)
  with removeFromCart_idempotent [of sample_env "''A''" ?s1] show ?thesis
    by simp
qed

section \<open>Adding again\<close>

text \<open>
  C10. Once an id has left the store, by \<^verbatim>\<open>removeFromCart\<close> or by an \<^verbatim>\<open>updateQuantity\<close>
  that takes its quantity to 0 or below, \<^verbatim>\<open>addToCart\<close> with that id inserts a fresh entry:
  the name and the price of this call, whatever they are, and quantity 1. Nothing of the
  earlier entry comes back. The quantity is taken to 0 or below when the Number
  \<^verbatim>\<open>item.quantity + delta\<close> is, which for a whole quantity \<open>n\<close> and a whole delta \<open>d\<close> is
  when \<open>n + d \<le> 0\<close>.
\<close>

theorem add_after_removal:
  "map_get (cart (addToCart e item (removeFromCart e (item_id item) s))) (item_id item)
     = Some \<lparr>item_id = item_id item, name = name item, price = price item, quantity = Finite 1\<rparr>
   \<and> (map_get (cart s) (item_id item) = Some old
        \<and> js_le (js_add (quantity old) delta) (Finite 0) \<longrightarrow>
        map_get (cart (addToCart e item (updateQuantity e (item_id item) delta s))) (item_id item)
          = Some \<lparr>item_id = item_id item, name = name item, price = price item,
                   quantity = Finite 1\<rparr>)
   \<and> (map_get (cart s) (item_id item) = Some old \<and> quantity old = of_integer n
        \<and> n + d \<le> 0 \<longrightarrow>
        map_get (cart (addToCart e item (updateQuantity e (item_id item) (of_integer d) s)))
            (item_id item)
          = Some \<lparr>item_id = item_id item, name = name item, price = price item,
                   quantity = Finite 1\<rparr>)"
proof (intro conjI impI)
  show "map_get (cart (addToCart e item (removeFromCart e (item_id item) s))) (item_id item)
     = Some \<lparr>item_id = item_id item, name = name item, price = price item, quantity = Finite 1\<rparr>"
    by (simp add: cart_addToCart cart_removeFromCart map_get_map_delete map_get_map_set
          extend_fields)
next
  assume "map_get (cart s) (item_id item) = Some old
      \<and> js_le (js_add (quantity old) delta) (Finite 0)"
  then show "map_get (cart (addToCart e item (updateQuantity e (item_id item) delta s)))
        (item_id item)
      = Some \<lparr>item_id = item_id item, name = name item, price = price item,
               quantity = Finite 1\<rparr>"
    by (simp add: cart_addToCart cart_updateQuantity map_get_map_delete map_get_map_set
          extend_fields)
next
  assume a: "map_get (cart s) (item_id item) = Some old \<and> quantity old = of_integer n
      \<and> n + d \<le> 0"
  then have "js_le (js_add (quantity old) (of_integer d)) (Finite 0)"
    by (simp add: js_add_integers_nonpos)
  with a show "map_get (cart (addToCart e item (updateQuantity e (item_id item) (of_integer d) s)))
        (item_id item)
      = Some \<lparr>item_id = item_id item, name = name item, price = price item,
               quantity = Finite 1\<rparr>"
    by (simp add: cart_addToCart cart_updateQuantity map_get_map_delete map_get_map_set
          extend_fields)
qed

theorem add_after_removal_witness:
  "map_get (cart (addToCart sample_env dosa_repriced
                    (removeFromCart sample_env (item_id dosa_repriced)
                       (addToCart sample_env dosa (initial_state blank_page)))))
       (item_id dosa_repriced)
     = Some \<lparr>item_id = ''A'', name = ''Masala Dosa'', price = Finite 95, quantity = Finite 1\<rparr>
   \<and> map_get (cart (addToCart sample_env dosa_repriced
                    (updateQuantity sample_env (item_id dosa_repriced) (Finite (- 1))
                       (addToCart sample_env dosa (initial_state blank_page)))))
       (item_id dosa_repriced)
     = Some \<lparr>item_id = ''A'', name = ''Masala Dosa'', price = Finite 95, quantity = Finite 1\<rparr>
   \<and> map_get (cart (addToCart sample_env dosa_repriced
                    (updateQuantity sample_env (item_id dosa_repriced) (of_integer (- 3))
                       (addToCart sample_env dosa (initial_state blank_page)))))
       (item_id dosa_repriced)
     = Some \<lparr>item_id = ''A'', name = ''Masala Dosa'', price = Finite 95, quantity = Finite 1\<rparr>"
proof -
  let ?s1 = "addToCart sample_env dosa (initial_state blank_page)"
  let ?d1 = "\<lparr>item_id = ''A'', name = ''Dosa'', price = Finite 80, quantity = Finite 1\<rparr>"
  note spec = add_after_removal [where e = sample_env and item = dosa_repriced and s = ?s1
      and old = ?d1 and delta = "Finite (- 1)" and n = 1 and d = "- 3"]
  have zero: "js_add (Finite 1) (Finite (- 1)) = Finite 0"
    using js_add_integers [of 1 "- 1"] by (simp add: of_integer_def)
  have c1: "map_get (cart ?s1) (item_id dosa_repriced) = Some ?d1"
    by (simp add: cart_addToCart initial_state_def map_get_def dosa_def dosa_repriced_def
          extend_fields)
  have held: "map_get (cart ?s1) (item_id dosa_repriced) = Some ?d1
      \<and> js_le (js_add (quantity ?d1) (Finite (- 1))) (Finite 0)"
    using c1 zero by (simp del: js_add.simps)
  have whole: "map_get (cart ?s1) (item_id dosa_repriced) = Some ?d1
      \<and> quantity ?d1 = of_integer 1 \<and> 1 + (- 3) \<le> (0::int)"
    using c1 by (simp add: of_integer_def)
  have fields: "\<lparr>item_id = item_id dosa_repriced, name = name dosa_repriced,
                  price = price dosa_repriced, quantity = Finite 1\<rparr>
      = \<lparr>item_id = ''A'', name = ''Masala Dosa'', price = Finite 95, quantity = Finite 1\<rparr>"
    by (simp add: dosa_repriced_def)
  from spec [THEN conjunct1] spec [THEN conjunct2, THEN conjunct1, THEN mp, OF held]
    spec [THEN conjunct2, THEN conjunct2, THEN mp, OF whole]
  show ?thesis
    by (simp only: fields simp_thms)
qed

section \<open>Checkout\<close>

lemma checkout_nonempty:
  "map_size (cart s) \<noteq> 0 \<Longrightarrow>
   calls (checkoutBtn_click e s)
     = calls s @ [Alert (order_message s (fst (calculateTotals s))), UpdateQRCode (Finite 0)]
   \<and> cart (checkoutBtn_click e s) = []"
  by (simp add: checkoutBtn_click_def clearCart_def calls_renderCart cart_renderCart
        calculateTotals_def Let_def map_clear_def)

text \<open>
  C5. A click on the checkout button while the store is empty returns at the guard: the
  state is the one before the click, so the store is unchanged and no \<^verbatim>\<open>alert\<close> has
  been added to the calls.
\<close>

theorem checkout_empty:
  "map_size (cart s) = 0 \<Longrightarrow> checkoutBtn_click e s = s"
  by (simp add: checkoutBtn_click_def)

theorem checkout_empty_witness:
  "checkoutBtn_click sample_env (domContentLoaded sample_env (initial_state blank_page))
     = domContentLoaded sample_env (initial_state blank_page)"
proof -
  have "map_size (cart (domContentLoaded sample_env (initial_state blank_page))) = 0"
    by (simp add: domContentLoaded_def cart_updateQRCode cart_renderCart initial_state_def
          map_size_def)
  then show ?thesis
    by (rule checkout_empty)
qed

section \<open>Startup\<close>

lemma grandTotal_empty: "cart s = [] \<Longrightarrow> grandTotal (fst (calculateTotals s)) = Finite 0"
  by (simp add: calculateTotals_def Let_def)

text \<open>
  C9, as the code has it. The listener of \<^verbatim>\<open>DOMContentLoaded\<close> enters \<^verbatim>\<open>updateQRCode\<close>
  twice, each time with amount 0: once at the end of the first \<^verbatim>\<open>renderCart\<close>, with the
  grand total of the empty store, and once by its own call \<^verbatim>\<open>updateQRCode(0)\<close>.
\<close>

theorem startup_qr_updates:
  "calls (renderCart e (initial_state d)) = [UpdateQRCode (Finite 0)]
   \<and> calls (domContentLoaded e (initial_state d))
       = [UpdateQRCode (Finite 0), UpdateQRCode (Finite 0)]"
proof -
  have "cart (initial_state d) = []" and "calls (initial_state d) = []"
    by (simp_all add: initial_state_def)
  then have "calls (renderCart e (initial_state d)) = [UpdateQRCode (Finite 0)]"
    by (simp add: calls_renderCart grandTotal_empty)
  then show ?thesis
    by (simp add: domContentLoaded_def calls_updateQRCode)
qed

text \<open>On the blank page the calls are two, not one.\<close>

theorem startup_qr_updates_counterexample:
  "calls (domContentLoaded sample_env (initial_state blank_page))
     = [UpdateQRCode (Finite 0), UpdateQRCode (Finite 0)]
   \<and> calls (domContentLoaded sample_env (initial_state blank_page)) \<noteq> [UpdateQRCode (Finite 0)]"
proof -
  have "cart (initial_state blank_page) = []" and "calls (initial_state blank_page) = []"
    by (simp_all add: initial_state_def)
  then have "calls (domContentLoaded sample_env (initial_state blank_page))
      = [UpdateQRCode (Finite 0), UpdateQRCode (Finite 0)]"
    by (simp add: domContentLoaded_def calls_updateQRCode calls_renderCart grandTotal_empty)
  then show ?thesis
    by simp
qed

section \<open>The keys stay distinct\<close>

lemma keys_distinct_apply_op:
  assumes "distinct (map fst (cart s))"
  shows "distinct (map fst (cart (apply_op e x s)))"
proof (cases x)
  case (Add item)
  with assms show ?thesis
    by (simp add: cart_addToCart keys_map_set keys_set_quantity split: option.splits)
next
  case (AdjustQuantity k delta)
  with assms show ?thesis
    by (simp add: cart_updateQuantity keys_map_delete keys_set_quantity split: option.splits)
next
  case (Remove k)
  with assms show ?thesis
    by (simp add: cart_removeFromCart keys_map_delete)
next
  case Clear
  then show ?thesis
    by (simp add: cart_clearCart)
qed

lemma keys_distinct_run_ops:
  "distinct (map fst (cart s)) \<Longrightarrow> distinct (map fst (cart (run_ops e xs s)))"
  by (induction xs arbitrary: s) (simp_all add: keys_distinct_apply_op)

section \<open>Formatting\<close>

lemma digit_char_cases:
  assumes "d < 10"
  shows "d = 0 \<or> d = 1 \<or> d = 2 \<or> d = 3 \<or> d = 4 \<or> d = 5 \<or> d = 6 \<or> d = 7 \<or> d = 8 \<or> d = (9::nat)"
  using assms by arith

lemma digit_char_code:
  assumes "d < 10"
  shows "of_char (digit_char d) = (48::nat) + d"
  using digit_char_cases [OF assms] by (elim disjE) (simp_all add: digit_char_def)

lemma digit_char_decimal:
  assumes "d < 10"
  shows "digit_char d \<in> set ''0123456789''"
  using digit_char_cases [OF assms] by (elim disjE) (simp_all add: digit_char_def)

lemma decimal_value_digits: "decimal_value (digits n) = n"
proof (induction n rule: digits.induct)
  case (1 n)
  show ?case
  proof (cases "n < 10")
    case True
    then show ?thesis
      by (simp add: digits.simps [of n] decimal_value_def digit_char_code)
  next
    case False
    with 1 have "decimal_value (digits (n div 10)) = n div 10"
      by simp
    with False show ?thesis
      by (simp add: digits.simps [of n] decimal_value_def digit_char_code)
  qed
qed

lemma digits_decimal: "list_all (\<lambda>c. c \<in> set ''0123456789'') (digits n)"
proof (induction n rule: digits.induct)
  case (1 n)
  show ?case
  proof (cases "n < 10")
    case True
    then show ?thesis
      using digit_char_decimal [of n] by (simp add: digits.simps [of n])
  next
    case False
    with 1 have "list_all (\<lambda>c. c \<in> set ''0123456789'') (digits (n div 10))"
      by simp
    with False show ?thesis
      using digit_char_decimal [of "n mod 10"] by (simp add: digits.simps [of n])
  qed
qed

lemma toFixed_0_small:
  assumes "0 \<le> x" and "x < 10 ^ 21"
  shows "toFixed 0 (Finite x) = digits (nat \<lfloor>x + 1 / 2\<rfloor>)"
  using assms by (simp add: toFixed_def Let_def)

lemma nearest_bounds:
  fixes y :: rat
  assumes "0 \<le> y"
  shows "of_nat (nat \<lfloor>y + 1 / 2\<rfloor>) - 1 / 2 \<le> y" and "y < of_nat (nat \<lfloor>y + 1 / 2\<rfloor>) + 1 / 2"
proof -
  have nonneg: "0 \<le> \<lfloor>y + 1 / 2\<rfloor>"
    using assms by simp
  then have eq: "(of_nat (nat \<lfloor>y + 1 / 2\<rfloor>) :: rat) = of_int \<lfloor>y + 1 / 2\<rfloor>"
    by simp
  have "of_int \<lfloor>y + 1 / 2\<rfloor> \<le> y + 1 / 2" and "y + 1 / 2 < of_int \<lfloor>y + 1 / 2\<rfloor> + 1"
    by linarith+
  then show "of_nat (nat \<lfloor>y + 1 / 2\<rfloor>) - 1 / 2 \<le> y"
    and "y < of_nat (nat \<lfloor>y + 1 / 2\<rfloor>) + 1 / 2"
    unfolding eq by linarith+
qed

lemma itemsTotalText_renderCart:
  "itemsTotalText (page (renderCart e s)) = formatINR (itemsTotal (fst (calculateTotals s)))
   \<and> grandTotalText (page (renderCart e s)) = formatINR (grandTotal (fst (calculateTotals s)))"
  by (simp add: page_renderCart page_updateQRCode) (simp add: calculateTotals_def Let_def)

text \<open>
  C8. For an amount \<open>x\<close> with \<open>0 \<le> x < 10^21\<close>, \<^verbatim>\<open>formatINR\<close> gives the currency symbol
  immediately followed by the decimal digits, and nothing but digits, of the whole number
  \<open>n\<close> nearest to \<open>x\<close>, a half going up: the amount rounded to zero decimal places. The
  rounding is in the text alone: \<^verbatim>\<open>renderCart\<close> writes \<^verbatim>\<open>formatINR\<close> of the totals that
  \<^verbatim>\<open>calculateTotals\<close> returns, and those are the Number sum of the line totals, which were
  never through \<^verbatim>\<open>formatINR\<close>; \<^verbatim>\<open>updateQRCode\<close> gets the grand total as it is.
\<close>

theorem formatINR_spec:
  "(0 \<le> x \<and> x < 10 ^ 21 \<longrightarrow>
      (\<exists>n. formatINR (Finite x) = currency_symbol @ digits n
           \<and> list_all (\<lambda>c. c \<in> set ''0123456789'') (digits n)
           \<and> decimal_value (digits n) = n
           \<and> of_nat n - 1 / 2 \<le> x \<and> x < of_nat n + 1 / 2))
   \<and> itemsTotalText (page (renderCart e s))
       = formatINR (itemsTotal (fst (calculateTotals s)))
   \<and> grandTotalText (page (renderCart e s))
       = formatINR (grandTotal (fst (calculateTotals s)))
   \<and> itemsTotal (fst (calculateTotals s))
       = js_sum (map (\<lambda>(k, item). js_mul (price item) (quantity item)) (cart s))
   \<and> calls (renderCart e s) = calls s @ [UpdateQRCode (grandTotal (fst (calculateTotals s)))]"
proof (intro conjI impI)
  assume range: "0 \<le> x \<and> x < 10 ^ 21"
  let ?n = "nat \<lfloor>x + 1 / 2\<rfloor>"
  have "formatINR (Finite x) = currency_symbol @ digits ?n"
    using range by (simp add: formatINR_def toFixed_0_small)
  moreover have "list_all (\<lambda>c. c \<in> set ''0123456789'') (digits ?n)"
    by (rule digits_decimal)
  moreover have "decimal_value (digits ?n) = ?n"
    by (rule decimal_value_digits)
  moreover have "of_nat ?n - 1 / 2 \<le> x" and "x < of_nat ?n + 1 / 2"
    using range by (simp_all only: nearest_bounds)
  ultimately show "\<exists>n. formatINR (Finite x) = currency_symbol @ digits n
      \<and> list_all (\<lambda>c. c \<in> set ''0123456789'') (digits n)
      \<and> decimal_value (digits n) = n
      \<and> of_nat n - 1 / 2 \<le> x \<and> x < of_nat n + 1 / 2"
    by blast
next
  show "itemsTotalText (page (renderCart e s))
      = formatINR (itemsTotal (fst (calculateTotals s)))"
    by (simp only: itemsTotalText_renderCart)
next
  show "grandTotalText (page (renderCart e s))
      = formatINR (grandTotal (fst (calculateTotals s)))"
    by (simp only: itemsTotalText_renderCart)
next
  show "itemsTotal (fst (calculateTotals s))
      = js_sum (map (\<lambda>(k, item). js_mul (price item) (quantity item)) (cart s))"
    by (rule itemsTotal_sum)
next
  show "calls (renderCart e s) = calls s @ [UpdateQRCode (grandTotal (fst (calculateTotals s)))]"
    by (rule calls_renderCart)
qed

theorem formatINR_spec_witness:
  "formatINR (Finite (623 / 2)) = currency_symbol @ ''312''
   \<and> itemsTotal (fst (calculateTotals
        \<lparr>cart = [(''A'', \<lparr>item_id = ''A'', name = ''Dosa'', price = Finite double_0_7,
                           quantity = Finite 5\<rparr>)],
          page = blank_page, calls = []\<rparr>)) = Finite (7 / 2)
   \<and> itemsTotalText (page (renderCart sample_env
        \<lparr>cart = [(''A'', \<lparr>item_id = ''A'', name = ''Dosa'', price = Finite double_0_7,
                           quantity = Finite 5\<rparr>)],
          page = blank_page, calls = []\<rparr>)) = currency_symbol @ ''4''"
proof -
  let ?s = "\<lparr>cart = [(''A'', \<lparr>item_id = ''A'', name = ''Dosa'', price = Finite double_0_7,
                             quantity = Finite 5\<rparr>)],
            page = blank_page, calls = []\<rparr>"
  note small = formatINR_spec [where x = "623 / 2", THEN conjunct1]
  note half = formatINR_spec [where x = "7 / 2", THEN conjunct1]
  note shown = formatINR_spec [where s = ?s and e = sample_env, THEN conjunct2, THEN conjunct1]
  note kept = formatINR_spec [where s = ?s, THEN conjunct2, THEN conjunct2, THEN conjunct2,
      THEN conjunct1]
  have "0 \<le> (623 / 2 :: rat) \<and> (623 / 2 :: rat) < 10 ^ 21"
    by simp
  with small obtain n :: nat
    where str: "formatINR (Finite (623 / 2)) = currency_symbol @ digits n"
      and lo: "of_nat n - 1 / 2 \<le> (623 / 2 :: rat)" and hi: "(623 / 2 :: rat) < of_nat n + 1 / 2"
    by auto
  from lo have "(of_nat n :: rat) \<le> of_nat 312"
    by simp
  moreover from hi have "(of_nat 311 :: rat) < of_nat n"
    by simp
  ultimately have "n = 312"
    unfolding of_nat_le_iff of_nat_less_iff by linarith
  with str have first: "formatINR (Finite (623 / 2)) = currency_symbol @ ''312''"
    by (simp add: digits.simps digit_char_def)
  have "0 \<le> (7 / 2 :: rat) \<and> (7 / 2 :: rat) < 10 ^ 21"
    by simp
  with half obtain m :: nat
    where str2: "formatINR (Finite (7 / 2)) = currency_symbol @ digits m"
      and lo2: "of_nat m - 1 / 2 \<le> (7 / 2 :: rat)" and hi2: "(7 / 2 :: rat) < of_nat m + 1 / 2"
    by auto
  from lo2 have "(of_nat m :: rat) \<le> of_nat 4"
    by simp
  moreover from hi2 have "(of_nat 3 :: rat) < of_nat m"
    by simp
  ultimately have "m = 4"
    unfolding of_nat_le_iff of_nat_less_iff by linarith
  with str2 have four: "formatINR (Finite (7 / 2)) = currency_symbol @ ''4''"
    by (simp add: digits.simps digit_char_def)
  have r: "round64 (7 / 2) = Finite (7 / 2)"
    by (subst round64_value [where e = 1 and r = "7 / 2"])
       (simp_all add: round_half_even_def Let_def floor_numeral_divide)
  have a: "js_add (Finite 0) (Finite (7 / 2)) = Finite (7 / 2)"
    by (simp add: r)
  have "js_sum (map (\<lambda>(k, item). js_mul (price item) (quantity item)) (cart ?s))
      = js_sum [js_mul (Finite double_0_7) (Finite 5)]"
    by (simp del: js_mul.simps)
  also have "\<dots> = Finite (7 / 2)"
    by (simp only: product_0_7_5 js_sum_def foldl.simps a)
  finally have second: "itemsTotal (fst (calculateTotals ?s)) = Finite (7 / 2)"
    by (simp only: kept)
  from shown have third: "itemsTotalText (page (renderCart sample_env ?s)) = currency_symbol @ ''4''"
    by (simp only: second four)
  from first second third show ?thesis
    by (simp only: simp_thms)
qed

end
